theory Spec2Isabelle
  imports Main "HOL-Library.Sublist"
begin

section \<open>Go runtime failures\<close>

text \<open>
  Ways in which a run of the engine stops without returning: a Go runtime panic
  (slice index out of range, an explicit \<^verbatim>\<open>panic(err)\<close>) and a fatal exit
  (\<^verbatim>\<open>log.Fatal\<close>, \<^verbatim>\<open>colorlog.PrintErrorAndExit\<close>, both ending in \<^verbatim>\<open>os.Exit(1)\<close>).
\<close>

datatype go_panic = SliceBoundsOutOfRange int | PanicErr string

section \<open>Collision file names (\<^verbatim>\<open>trimCollisionFilename\<close>)\<close>

text \<open>
  \<^verbatim>\<open>strings.LastIndex(s, "_")\<close> for a one-byte separator: the index of the last
  occurrence of the byte, or \<open>-1\<close> when it does not occur.
\<close>

fun LastIndex :: "string \<Rightarrow> char \<Rightarrow> int" where
  "LastIndex [] c = - 1"
| "LastIndex (x # xs) c =
     (let r = LastIndex xs c
      in if 0 \<le> r then r + 1 else if x = c then 0 else - 1)"

text \<open>
  \<^verbatim>\<open>filename[:n]\<close> on a Go string: a runtime panic unless \<open>0 \<le> n \<le> len(filename)\<close>.
\<close>

definition slice_to :: "string \<Rightarrow> int \<Rightarrow> go_panic + string" where
  "slice_to s n =
     (if 0 \<le> n \<and> n \<le> int (length s) then Inr (take (nat n) s)
      else Inl (SliceBoundsOutOfRange n))"

text \<open>
  \<^verbatim>\<open>
  func trimCollisionFilename(filename string) string {
      maxLen := 248
      if len(filename) > maxLen {
          return filename[:strings.LastIndex(filename[:maxLen], "_")]
      }
      return filename
  }
  \<close>
\<close>

definition trimCollisionFilename :: "string \<Rightarrow> go_panic + string" where
  "trimCollisionFilename filename =
     (let maxLen = 248
      in if int (length filename) > maxLen then
           (case slice_to filename maxLen of
              Inl p \<Rightarrow> Inl p
            | Inr pre \<Rightarrow> slice_to filename (LastIndex pre (CHR ''_'')))
         else Inr filename)"

section \<open>Strings and paths of the Go standard library\<close>

text \<open>
  The engine manipulates paths with \<^verbatim>\<open>strings\<close> and \<^verbatim>\<open>path/filepath\<close>. The functions
  it calls are written out here for a Unix host (separator \<^verbatim>\<open>/\<close>), on byte strings.
\<close>

definition HasPrefix :: "string \<Rightarrow> string \<Rightarrow> bool" where
  "HasPrefix s pre = (take (length pre) s = pre)"

definition TrimPrefix :: "string \<Rightarrow> string \<Rightarrow> string" where
  "TrimPrefix s pre = (if HasPrefix s pre then drop (length pre) s else s)"

definition ReplaceAll_byte :: "string \<Rightarrow> char \<Rightarrow> char \<Rightarrow> string" where
  "ReplaceAll_byte s old new = map (\<lambda>c. if c = old then new else c) s"

text \<open>\<^verbatim>\<open>filepath.ToSlash\<close> replaces the separator by a slash: the identity on Unix.\<close>

definition ToSlash :: "string \<Rightarrow> string" where
  "ToSlash s = ReplaceAll_byte s (CHR ''/'') (CHR ''/'')"

fun Split_byte :: "char \<Rightarrow> string \<Rightarrow> string list" where
  "Split_byte c [] = [[]]"
| "Split_byte c (x # xs) =
     (if x = c then [] # Split_byte c xs
      else (case Split_byte c xs of [] \<Rightarrow> [[x]] | y # ys \<Rightarrow> (x # y) # ys))"

fun Join_sep :: "string \<Rightarrow> string list \<Rightarrow> string" where
  "Join_sep sep [] = []"
| "Join_sep sep [x] = x"
| "Join_sep sep (x # y # ys) = x @ sep @ Join_sep sep (y # ys)"

text \<open>
  \<^verbatim>\<open>filepath.Clean\<close>: empty and \<^verbatim>\<open>.\<close> elements are dropped, an inner \<^verbatim>\<open>..\<close> removes the
  element before it, a \<^verbatim>\<open>..\<close> at the root is dropped, and the empty result is \<^verbatim>\<open>.\<close>.
  The second argument of \<open>clean_elems\<close> is the stack of elements kept so far, last first.
\<close>

fun clean_elems :: "bool \<Rightarrow> string list \<Rightarrow> string list \<Rightarrow> string list" where
  "clean_elems rooted out [] = rev out"
| "clean_elems rooted out (e # es) =
     (if e = [] \<or> e = ''.'' then clean_elems rooted out es
      else if e = ''..'' then
        (case out of
           [] \<Rightarrow> if rooted then clean_elems rooted out es else clean_elems rooted [e] es
         | t # ts \<Rightarrow>
             if t = ''..'' then clean_elems rooted (e # out) es
             else clean_elems rooted ts es)
      else clean_elems rooted (e # out) es)"

definition Clean :: "string \<Rightarrow> string" where
  "Clean p =
     (if p = [] then ''.''
      else
        (let rooted = (hd p = CHR ''/'');
             body = Join_sep ''/'' (clean_elems rooted [] (Split_byte (CHR ''/'') p))
         in if rooted then CHR ''/'' # body
            else if body = [] then ''.'' else body))"

text \<open>\<^verbatim>\<open>filepath.Join(a, b)\<close>: empty elements are ignored, the rest is joined and cleaned.\<close>

definition Join :: "string \<Rightarrow> string \<Rightarrow> string" where
  "Join a b =
     (let elems = filter (\<lambda>e. e \<noteq> []) [a, b]
      in if elems = [] then [] else Clean (Join_sep ''/'' elems))"

text \<open>
  \<^verbatim>\<open>strings.TrimSpace\<close> removes leading and trailing Unicode white space. A Go string is a
  sequence of bytes holding UTF-8, and the white space characters (\<^verbatim>\<open>unicode.IsSpace\<close>) are
  tab, line feed, vertical tab, form feed, carriage return, space, U+0085, U+00A0, U+1680,
  U+2000 to U+200A, U+2028, U+2029, U+202F, U+205F and U+3000, listed here by their
  encodings. Decoding from the left and from the right reads one whole encoding at a time;
  a byte that is not part of a valid encoding is decoded as U+FFFD, which is no white
  space, so the trimming stops there.
\<close>

definition space_runes :: "string list" where
  "space_runes =
     [[CHR 0x09], [CHR 0x0A], [CHR 0x0B], [CHR 0x0C], [CHR 0x0D], [CHR 0x20],
      [CHR 0xC2, CHR 0x85], [CHR 0xC2, CHR 0xA0],
      [CHR 0xE1, CHR 0x9A, CHR 0x80]] @
     map (\<lambda>b. [CHR 0xE2, CHR 0x80, b])
       [CHR 0x80, CHR 0x81, CHR 0x82, CHR 0x83, CHR 0x84, CHR 0x85, CHR 0x86, CHR 0x87,
        CHR 0x88, CHR 0x89, CHR 0x8A, CHR 0xA8, CHR 0xA9, CHR 0xAF] @
     [[CHR 0xE2, CHR 0x81, CHR 0x9F], [CHR 0xE3, CHR 0x80, CHR 0x80]]"

text \<open>Removing, as long as there is one, an encoding of the list from the front of a string.\<close>

function trim_leading :: "string list \<Rightarrow> string \<Rightarrow> string" where
  "trim_leading ws s =
     (case find (\<lambda>w. w \<noteq> [] \<and> prefix w s) ws of
        None \<Rightarrow> s
      | Some w \<Rightarrow> trim_leading ws (drop (length w) s))"
  by pat_completeness auto
termination
  by (relation "measure (\<lambda>(ws, s). length s)") (auto simp: find_Some_iff prefix_def)

declare trim_leading.simps [simp del]

definition TrimSpace :: "string \<Rightarrow> string" where
  "TrimSpace s = rev (trim_leading (map rev space_runes) (rev (trim_leading space_runes s)))"

text \<open>
  \<^verbatim>\<open>strings.ToLower\<close>: the ASCII capitals are mapped to their small letters. (On other
  characters Go applies the Unicode mapping, whose results are never among the letters
  \<^verbatim>\<open>y\<close>, \<^verbatim>\<open>e\<close>, \<^verbatim>\<open>s\<close>; the only use made of the result is the comparison with \<^verbatim>\<open>y\<close> and
  \<^verbatim>\<open>yes\<close>.)
\<close>

definition to_lower_byte :: "char \<Rightarrow> char" where
  "to_lower_byte c =
     (case map_of (zip ''ABCDEFGHIJKLMNOPQRSTUVWXYZ'' ''abcdefghijklmnopqrstuvwxyz'') c of
        Some l \<Rightarrow> l
      | None \<Rightarrow> c)"

definition ToLower :: "string \<Rightarrow> string" where
  "ToLower s = map to_lower_byte s"

section \<open>The repository record\<close>

text \<open>
  Modelled from the spec: the declaration of \<^verbatim>\<open>scm.Repo\<close> is not among the sources; the
  fields are those of the spec's data model (section 3) that the engine code reads.
\<close>

record Repo =
  Name :: string
  Path :: string
  URL :: string
  CloneURL :: string
  CloneBranch :: string
  HostPath :: string
  IsWiki :: bool
  IsGitLabSnippet :: bool
  IsGitLabRootLevelSnippet :: bool
  GitLabSnippetInfo_URLOfRepo :: string

section \<open>Local clone tree and the pruner\<close>

text \<open>
  The clone root on disk: regular files, directories with their entries in the order
  \<^verbatim>\<open>os.ReadDir\<close> lists them, and directories that cannot be read (their listing fails).
\<close>

datatype fnode = File | Dir "(string \<times> fnode) list" | Unreadable

text \<open>
  \<^verbatim>\<open>
  func isGitRepository(path string) bool {
      stat, err := os.Stat(filepath.Join(path, ".git"))
      return err == nil && stat.IsDir()
  }
  \<close>
  The argument of the model is the node found at \<^verbatim>\<open>path\<close>. Below an unreadable directory
  \<^verbatim>\<open>os.Stat\<close> fails.
\<close>

definition isGitRepository :: "fnode \<Rightarrow> bool" where
  "isGitRepository d =
     (case d of
        Dir es \<Rightarrow>
          (case map_of es ''.git'' of
             None \<Rightarrow> False
           | Some File \<Rightarrow> False
           | Some (Dir _) \<Rightarrow> True
           | Some Unreadable \<Rightarrow> True)
      | File \<Rightarrow> False
      | Unreadable \<Rightarrow> False)"

datatype walk_error = ReadDirFailed "string list"

text \<open>
  \<^verbatim>\<open>filepath.WalkDir\<close> with the callback of \<^verbatim>\<open>getRelativePathRepositories\<close>: every
  directory is visited before its entries; the callback records the directory when it is
  not the walk root and \<^verbatim>\<open>isGitRepository\<close> holds, and it returns the error it is handed
  when a directory cannot be listed, which ends the walk. The first argument is the path
  of the node relative to the root, as its list of elements.
\<close>

fun walkDir :: "string list \<Rightarrow> fnode \<Rightarrow> walk_error + string list list"
  and walkEntries :: "string list \<Rightarrow> (string \<times> fnode) list \<Rightarrow> walk_error + string list list"
where
  "walkDir rel File = Inr []"
| "walkDir rel Unreadable = Inl (ReadDirFailed rel)"
| "walkDir rel (Dir es) =
     (case walkEntries rel es of
        Inl e \<Rightarrow> Inl e
      | Inr below \<Rightarrow>
          Inr ((if rel \<noteq> [] \<and> isGitRepository (Dir es) then [rel] else []) @ below))"
| "walkEntries rel [] = Inr []"
| "walkEntries rel ((n, t) # es) =
     (case walkDir (rel @ [n]) t of
        Inl e \<Rightarrow> Inl e
      | Inr a \<Rightarrow>
          (case walkEntries rel es of
             Inl e \<Rightarrow> Inl e
           | Inr b \<Rightarrow> Inr (a @ b)))"

text \<open>
  \<^verbatim>\<open>getRelativePathRepositories(outputDirAbsolutePath)\<close>: the recorded paths, made relative
  to the root by \<^verbatim>\<open>filepath.Rel\<close>.
\<close>

definition getRelativePathRepositories :: "fnode \<Rightarrow> walk_error + string list" where
  "getRelativePathRepositories root =
     (case walkDir [] root of
        Inl e \<Rightarrow> Inl e
      | Inr found \<Rightarrow> Inr (map (Join_sep ''/'') found))"

text \<open>
  \<^verbatim>\<open>
  func sliceContainsNamedRepo(haystack []scm.Repo, needle string) bool {
      needle = strings.TrimPrefix(needle, "/")
      needle = strings.ReplaceAll(needle, "\\", "/")
      needle = filepath.ToSlash(needle)
      for _, repo := range haystack {
          normalizedPath := strings.TrimPrefix(repo.Path, "/")
          normalizedPath = strings.ReplaceAll(normalizedPath, "\\", "/")
          normalizedPath = filepath.ToSlash(normalizedPath)
          if normalizedPath == needle { return true }
      }
      return false
  }
  \<close>
\<close>

definition normalizePath :: "string \<Rightarrow> string" where
  "normalizePath p = ToSlash (ReplaceAll_byte (TrimPrefix p ''/'') (CHR 0x5C) (CHR ''/''))"

fun containsNormalized :: "Repo list \<Rightarrow> string \<Rightarrow> bool" where
  "containsNormalized [] needle = False"
| "containsNormalized (repo # haystack) needle =
     (if normalizePath (Path repo) = needle then True
      else containsNormalized haystack needle)"

definition sliceContainsNamedRepo :: "Repo list \<Rightarrow> string \<Rightarrow> bool" where
  "sliceContainsNamedRepo haystack needle = containsNormalized haystack (normalizePath needle)"

text \<open>
  How a run of the engine ends when it does not return: \<^verbatim>\<open>os.Exit\<close> with a code
  (\<^verbatim>\<open>log.Fatal\<close> and \<^verbatim>\<open>colorlog.PrintErrorAndExit\<close> exit with 1) or a panic.
\<close>

datatype stop = Exit int | Panic go_panic

text \<open>
  \<^verbatim>\<open>
  func interactiveYesNoPrompt(prompt string) bool {
      reader := bufio.NewReader(os.Stdin)
      fmt.Print(strings.TrimSpace(prompt) + " (y/N) ")
      s, err := reader.ReadString('\n')
      if err != nil { panic(err) }
      s = strings.TrimSpace(s)
      s = strings.ToLower(s)
      if s == "y" || s == "yes" { return true }
      return false
  }
  \<close>
  Standard input is given by what the successive \<^verbatim>\<open>read\<close> calls on it return: a list of
  chunks of bytes, an empty chunk or the end of the list being the end of the input. At a
  terminal a chunk is a line typed, with its line feed; on a pipe or a file a chunk holds
  whatever was available, possibly several lines.

  \<^verbatim>\<open>reader.ReadString('\n')\<close> on a reader made for this call: chunks are read until one
  contains a line feed; the result is what was read up to and including the first line
  feed. What the last chunk holds after that line feed stays in the buffer of the reader,
  which is dropped when the function returns, so it is lost to later reads. The end of the
  input before a line feed is the error \<^verbatim>\<open>EOF\<close>.
\<close>

fun ReadString :: "string \<Rightarrow> string list \<Rightarrow> (go_panic + string) \<times> string list" where
  "ReadString buffered [] = (Inl (PanicErr ''EOF''), [])"
| "ReadString buffered (chunk # rest) =
     (if chunk = [] then (Inl (PanicErr ''EOF''), rest)
      else if CHR 0x0A \<in> set chunk then
        (Inr (buffered @ takeWhile (\<lambda>c. c \<noteq> CHR 0x0A) chunk @ [CHR 0x0A]), rest)
      else ReadString (buffered @ chunk) rest)"

definition interactiveYesNoPrompt :: "string list \<Rightarrow> (go_panic + bool) \<times> string list" where
  "interactiveYesNoPrompt input =
     (case ReadString [] input of
        (Inl err, rest) \<Rightarrow> (Inl err, rest)
      | (Inr line, rest) \<Rightarrow>
          (let s = ToLower (TrimSpace line)
           in (Inr (s = ''y'' \<or> s = ''yes''), rest)))"

text \<open>
  The state of \<^verbatim>\<open>pruneRepos\<close>: its two local variables, the arguments of the calls of
  \<^verbatim>\<open>os.RemoveAll\<close> made so far (in call order), and the input not yet read.
\<close>

record prune_state =
  userAgreesToDelete :: bool
  count :: nat
  removed :: "string list"
  stdin :: "string list"

text \<open>
  What \<^verbatim>\<open>pruneRepos\<close> reads from its surroundings: the package variable
  \<^verbatim>\<open>outputDirAbsolutePath\<close>, whether \<^verbatim>\<open>GHORG_PRUNE_NO_CONFIRM\<close> is \<^verbatim>\<open>true\<close>, and the paths
  on which \<^verbatim>\<open>os.RemoveAll\<close> returns an error.
\<close>

record prune_env =
  outputDirAbsolutePath :: string
  pruneNoConfirm :: bool
  removeAllFails :: "string \<Rightarrow> bool"

text \<open>The deletion branch: \<^verbatim>\<open>os.RemoveAll\<close>, \<^verbatim>\<open>count++\<close>, then \<^verbatim>\<open>log.Fatal\<close> on error.\<close>

definition prune_delete :: "prune_env \<Rightarrow> string \<Rightarrow> prune_state \<Rightarrow> stop option \<times> prune_state" where
  "prune_delete env absolutePathToDelete st =
     (let st' = st\<lparr>removed := removed st @ [absolutePathToDelete], count := count st + 1\<rparr>
      in (if removeAllFails env absolutePathToDelete then Some (Exit 1) else None, st'))"

text \<open>One iteration of the loop over the local repositories.\<close>

definition prune_step ::
  "prune_env \<Rightarrow> Repo list \<Rightarrow> string \<Rightarrow> prune_state \<Rightarrow> stop option \<times> prune_state" where
  "prune_step env cloneTargets repository st =
     (let absolutePathToDelete = Join (outputDirAbsolutePath env) repository
      in if \<not> HasPrefix absolutePathToDelete (outputDirAbsolutePath env) then (Some (Exit 1), st)
         else if userAgreesToDelete st \<and> \<not> sliceContainsNamedRepo cloneTargets repository then
           (if pruneNoConfirm env then
              prune_delete env absolutePathToDelete (st\<lparr>userAgreesToDelete := True\<rparr>)
            else
              (case interactiveYesNoPrompt (stdin st) of
                 (Inl p, rest) \<Rightarrow> (Some (Panic p), st\<lparr>stdin := rest\<rparr>)
               | (Inr answer, rest) \<Rightarrow>
                   (let st1 = st\<lparr>userAgreesToDelete := answer, stdin := rest\<rparr>
                    in if answer then prune_delete env absolutePathToDelete st1
                       else (None, st1))))
         else (None, st))"

fun prune_loop ::
  "prune_env \<Rightarrow> Repo list \<Rightarrow> string list \<Rightarrow> prune_state \<Rightarrow> stop option \<times> prune_state" where
  "prune_loop env cloneTargets [] st = (None, st)"
| "prune_loop env cloneTargets (repository # repositories) st =
     (case prune_step env cloneTargets repository st of
        (Some halt, st') \<Rightarrow> (Some halt, st')
      | (None, st') \<Rightarrow> prune_loop env cloneTargets repositories st')"

text \<open>
  \<^verbatim>\<open>pruneRepos(cloneTargets)\<close> on the clone tree \<open>tree\<close> with the input \<open>input\<close>. The
  result is how the run stopped (\<open>None\<close>: it returned \<open>count\<close>) and the final state.
\<close>

definition pruneRepos ::
  "prune_env \<Rightarrow> Repo list \<Rightarrow> fnode \<Rightarrow> string list \<Rightarrow> stop option \<times> prune_state" where
  "pruneRepos env cloneTargets tree input =
     (let st0 = \<lparr>userAgreesToDelete = True, count = 0, removed = [], stdin = input\<rparr>
      in case getRelativePathRepositories tree of
           Inl e \<Rightarrow> (Some (Exit 1), st0)
         | Inr repositories \<Rightarrow> prune_loop env cloneTargets repositories st0)"

subsection \<open>Example runs of the pruner\<close>

text \<open>
  A clone root \<^verbatim>\<open>/r\<close> holding the clones \<^verbatim>\<open>a\<close>, \<^verbatim>\<open>b\<close> and \<^verbatim>\<open>c\<close>; the remote still has
  \<^verbatim>\<open>a\<close> only.
\<close>

definition example_tree :: fnode where
  "example_tree =
     Dir [(''a'', Dir [(''.git'', Dir []), (''README'', File)]),
          (''b'', Dir [(''.git'', Dir [])]),
          (''c'', Dir [(''.git'', Dir [])])]"

definition example_repo :: "string \<Rightarrow> string \<Rightarrow> Repo" where
  "example_repo name path =
     \<lparr>Name = name, Path = path, URL = ''https://gitlab.example.com/'' @ path @ ''.git'',
      CloneURL = ''https://gitlab.example.com/'' @ path @ ''.git'', CloneBranch = ''main'',
      HostPath = [], IsWiki = False, IsGitLabSnippet = False,
      IsGitLabRootLevelSnippet = False, GitLabSnippetInfo_URLOfRepo = []\<rparr>"

definition example_env :: "bool \<Rightarrow> prune_env" where
  "example_env noConfirm =
     \<lparr>outputDirAbsolutePath = ''/r'', pruneNoConfirm = noConfirm,
      removeAllFails = (\<lambda>p. False)\<rparr>"

text \<open>A line typed at the terminal arrives as one chunk, ended by its line feed.\<close>

definition typed :: "string \<Rightarrow> string" where
  "typed line = line @ [CHR 0x0A]"

text \<open>The same run when the root variable was set to a path that is not clean.\<close>

definition example_env_unclean :: prune_env where
  "example_env_unclean =
     \<lparr>outputDirAbsolutePath = ''/r/../s'', pruneNoConfirm = True,
      removeAllFails = (\<lambda>p. False)\<rparr>"

subsection \<open>Which directories are local clones, in the words of the specification\<close>

text \<open>The node found by following a relative path, element by element, from a node.\<close>

fun node_at :: "fnode \<Rightarrow> string list \<Rightarrow> fnode option" where
  "node_at t [] = Some t"
| "node_at (Dir es) (n # ns) = (case map_of es n of None \<Rightarrow> None | Some c \<Rightarrow> node_at c ns)"
| "node_at File (n # ns) = None"
| "node_at Unreadable (n # ns) = None"

definition is_directory :: "fnode \<Rightarrow> bool" where
  "is_directory t = (case t of File \<Rightarrow> False | Dir es \<Rightarrow> True | Unreadable \<Rightarrow> True)"

text \<open>The directory at \<open>rel\<close> has a child \<^verbatim>\<open>.git\<close> that is a directory.\<close>

definition contains_git_directory :: "fnode \<Rightarrow> string list \<Rightarrow> bool" where
  "contains_git_directory tree rel =
     (case node_at tree (rel @ [''.git'']) of None \<Rightarrow> False | Some g \<Rightarrow> is_directory g)"

text \<open>The directory at \<open>rel\<close> has a child \<^verbatim>\<open>.git\<close>, directory or file.\<close>

definition contains_git_child :: "fnode \<Rightarrow> string list \<Rightarrow> bool" where
  "contains_git_child tree rel =
     (case node_at tree (rel @ [''.git'']) of None \<Rightarrow> False | Some g \<Rightarrow> True)"

text \<open>
  The relative path, with its leading slash dropped and its separators unified, equals the
  normalised \<open>Path\<close> of a kept repository.
\<close>

definition matches_kept :: "Repo list \<Rightarrow> string \<Rightarrow> bool" where
  "matches_kept kept rel = (normalizePath rel \<in> set (map (\<lambda>r. normalizePath (Path r)) kept))"

text \<open>
  A prune candidate: a directory below the clone root (given by the elements of its
  relative path) that contains a \<^verbatim>\<open>.git\<close> directory and matches no kept repository.
\<close>

definition prune_candidate :: "fnode \<Rightarrow> Repo list \<Rightarrow> string list \<Rightarrow> bool" where
  "prune_candidate tree kept rel =
     (rel \<noteq> [] \<and> contains_git_directory tree rel \<and> \<not> matches_kept kept (Join_sep ''/'' rel))"

text \<open>The same with a \<^verbatim>\<open>.git\<close> child of either kind, as the specification has it.\<close>

definition prune_candidate_dir_or_file :: "fnode \<Rightarrow> Repo list \<Rightarrow> string list \<Rightarrow> bool" where
  "prune_candidate_dir_or_file tree kept rel =
     (rel \<noteq> [] \<and> contains_git_child tree rel \<and> \<not> matches_kept kept (Join_sep ''/'' rel))"

text \<open>A directory lists every name once.\<close>

fun wf_tree :: "fnode \<Rightarrow> bool" and wf_entries :: "(string \<times> fnode) list \<Rightarrow> bool" where
  "wf_tree File = True"
| "wf_tree Unreadable = True"
| "wf_tree (Dir es) = (distinct (map fst es) \<and> wf_entries es)"
| "wf_entries [] = True"
| "wf_entries ((n, t) # es) = (wf_tree t \<and> wf_entries es)"

text \<open>A clone root in which \<^verbatim>\<open>sub\<close> holds a \<^verbatim>\<open>.git\<close> file (a submodule pointer).\<close>

definition example_tree_git_file :: fnode where
  "example_tree_git_file = Dir [(''sub'', Dir [(''.git'', File), (''main.go'', File)])]"

section \<open>Exit codes at the end of a clone run\<close>

text \<open>
  \<^verbatim>\<open>strconv.Atoi\<close>: an optional sign and at least one decimal digit, within the range of a
  64-bit \<^verbatim>\<open>int\<close>; anything else is an error.
\<close>

datatype num_error = ErrSyntax | ErrRange

definition digit_value :: "char \<Rightarrow> nat option" where
  "digit_value c = map_of (zip ''0123456789'' [0, 1, 2, 3, 4, 5, 6, 7, 8, 9]) c"

fun parse_digits :: "nat \<Rightarrow> string \<Rightarrow> nat option" where
  "parse_digits acc [] = Some acc"
| "parse_digits acc (c # cs) =
     (case digit_value c of None \<Rightarrow> None | Some d \<Rightarrow> parse_digits (10 * acc + d) cs)"

definition Atoi :: "string \<Rightarrow> num_error + int" where
  "Atoi s =
     (let neg = (s \<noteq> [] \<and> hd s = CHR ''-'');
          digits = (if s \<noteq> [] \<and> (hd s = CHR ''-'' \<or> hd s = CHR ''+'') then tl s else s)
      in if digits = [] then Inl ErrSyntax
         else
           (case parse_digits 0 digits of
              None \<Rightarrow> Inl ErrSyntax
            | Some n \<Rightarrow>
                (let v = (if neg then - int n else int n)
                 in if v < - (2 ^ 63) \<or> 2 ^ 63 - 1 < v then Inl ErrRange else Inr v)))"

text \<open>
  The last statements of \<^verbatim>\<open>CloneAllRepos\<close>, where \<open>getenv\<close> is \<^verbatim>\<open>os.Getenv\<close> (the empty
  string for an unset variable):
  \<^verbatim>\<open>
  if os.Getenv("GHORG_DONT_EXIT_UNDER_TEST") != "true" {
      if os.Getenv("GHORG_EXIT_CODE_ON_CLONE_INFOS") != "0" && cloneInfosCount > 0 {
          exitCode, err := strconv.Atoi(os.Getenv("GHORG_EXIT_CODE_ON_CLONE_INFOS"))
          if err != nil { ...; os.Exit(1) }
          os.Exit(exitCode)
      }
  }
  if os.Getenv("GHORG_DONT_EXIT_UNDER_TEST") != "true" {
      if cloneErrorsCount > 0 {
          exitCode, err := strconv.Atoi(os.Getenv("GHORG_EXIT_CODE_ON_CLONE_ISSUES"))
          if err != nil { ...; os.Exit(1) }
          os.Exit(exitCode)
      }
  } else {
      cloneErrorsCount = 0
  }
  \<close>
  The result is the call of \<^verbatim>\<open>os.Exit\<close> made, or \<open>None\<close> when the function returns.
\<close>

definition exit_with_code_of :: "string \<Rightarrow> stop option" where
  "exit_with_code_of v =
     (case Atoi v of Inl err \<Rightarrow> Some (Exit 1) | Inr exitCode \<Rightarrow> Some (Exit exitCode))"

definition clone_run_exit :: "(string \<Rightarrow> string) \<Rightarrow> nat \<Rightarrow> nat \<Rightarrow> stop option" where
  "clone_run_exit getenv cloneInfosCount cloneErrorsCount =
     (if getenv ''GHORG_DONT_EXIT_UNDER_TEST'' \<noteq> ''true'' \<and>
         getenv ''GHORG_EXIT_CODE_ON_CLONE_INFOS'' \<noteq> ''0'' \<and> 0 < cloneInfosCount
      then exit_with_code_of (getenv ''GHORG_EXIT_CODE_ON_CLONE_INFOS'')
      else if getenv ''GHORG_DONT_EXIT_UNDER_TEST'' \<noteq> ''true'' then
        (if 0 < cloneErrorsCount
         then exit_with_code_of (getenv ''GHORG_EXIT_CODE_ON_CLONE_ISSUES'')
         else None)
      else None)"

text \<open>
  The exit status of the process as its parent sees it, on Unix: the low eight bits of the
  argument of \<^verbatim>\<open>os.Exit\<close> (256 is seen as 0, 300 as 44, -1 as 255), 2 after a panic, and the 0 that
  the clone command's \<^verbatim>\<open>Run\<close> returns after \<^verbatim>\<open>setupRepoClone()\<close> when nothing exited.
\<close>

definition process_exit_code :: "stop option \<Rightarrow> int" where
  "process_exit_code halt =
     (case halt of Some (Exit c) \<Rightarrow> c mod 256 | Some (Panic p) \<Rightarrow> 2 | None \<Rightarrow> 0)"

text \<open>An environment with the exit code for infos set to 2 and that for issues to 1.\<close>

definition example_getenv :: "string \<Rightarrow> string" where
  "example_getenv name =
     (case map_of [(''GHORG_EXIT_CODE_ON_CLONE_INFOS'', ''2''),
                   (''GHORG_EXIT_CODE_ON_CLONE_ISSUES'', ''1'')] name of
        None \<Rightarrow> [] | Some v \<Rightarrow> v)"

text \<open>An environment with the exit code for infos set to 256.\<close>

definition example_getenv_256 :: "string \<Rightarrow> string" where
  "example_getenv_256 name =
     (case map_of [(''GHORG_EXIT_CODE_ON_CLONE_INFOS'', ''256''),
                   (''GHORG_EXIT_CODE_ON_CLONE_ISSUES'', ''1'')] name of
        None \<Rightarrow> [] | Some v \<Rightarrow> v)"

section \<open>The stats file (\<^verbatim>\<open>writeGhorgStats\<close>)\<close>

text \<open>
  The files of the stats location: a map from path to contents. \<^verbatim>\<open>os.OpenFile\<close> with
  \<^verbatim>\<open>O_APPEND|O_CREATE|O_WRONLY\<close> followed by \<^verbatim>\<open>WriteString\<close> appends to the file, creating it
  empty first when it does not exist.
\<close>

type_synonym files = "string \<rightharpoonup> string"

definition append_file :: "files \<Rightarrow> string \<Rightarrow> string \<Rightarrow> files" where
  "append_file fs path s = fs(path \<mapsto> (case fs path of None \<Rightarrow> [] | Some c \<Rightarrow> c) @ s)"

datatype stats_error = OpenFailed string | TokenTooLong

text \<open>
  \<^verbatim>\<open>readFirstLine\<close>: the first token of a \<^verbatim>\<open>bufio.Scanner\<close> with the default line splitter.
  The token ends before the first line feed (or at the end of the file), one trailing
  carriage return is dropped, an empty file gives the empty string, and a first line that
  does not fit the scanner's buffer of 65536 bytes is the error \<^verbatim>\<open>ErrTooLong\<close>.
\<close>

definition dropCR :: "string \<Rightarrow> string" where
  "dropCR s = (if s \<noteq> [] \<and> last s = CHR 0x0D then butlast s else s)"

definition readFirstLine :: "files \<Rightarrow> string \<Rightarrow> stats_error + string" where
  "readFirstLine fs filePath =
     (case fs filePath of
        None \<Rightarrow> Inl (OpenFailed filePath)
      | Some content \<Rightarrow>
          (let line = takeWhile (\<lambda>c. c \<noteq> CHR 0x0A) content
           in if 65536 \<le> length line then Inl TokenTooLong else Inr (dropCR line)))"

text \<open>\<^verbatim>\<open>fmt.Sprintf("%x", digest)\<close>: two lower-case hexadecimal digits for every byte.\<close>

definition hex_digit :: "nat \<Rightarrow> char" where
  "hex_digit n = ''0123456789abcdef'' ! (n mod 16)"

definition hex_bytes :: "nat list \<Rightarrow> string" where
  "hex_bytes bs = concat (map (\<lambda>b. [hex_digit (b div 16), hex_digit b]) bs)"

text \<open>
  What \<^verbatim>\<open>writeGhorgStats\<close> reads from its surroundings: the environment variables, the
  digest function \<^verbatim>\<open>sha256.Sum256\<close> (the bytes of the digest as numbers), and the paths
  that \<^verbatim>\<open>os.OpenFile\<close> cannot open for appending.
\<close>

record stats_env =
  Getenv :: "string \<Rightarrow> string"
  Sum256 :: "string \<Rightarrow> nat list"
  openFileFails :: "string \<Rightarrow> bool"

definition stats_header :: string where
  "stats_header = ''datetime,clonePath,scm,cloneType,cloneTarget,totalCount,newClonesCount,existingResourcesPulledCount,dirSizeInMB,newCommits,syncedCount,cloneInfosCount,cloneErrorsCount,updateRemoteCount,pruneCount,hasCollisions,ghorgignore,ghorgonly,totalDurationSeconds,ghorgVersion'' @ [CHR 0x0A]"

definition getGhorgStatsFilePath :: "stats_env \<Rightarrow> string" where
  "getGhorgStatsFilePath env =
     (let absolutePath = Getenv env ''GHORG_ABSOLUTE_PATH_TO_CLONE_TO''
      in if Getenv env ''GHORG_PRESERVE_SCM_HOSTNAME'' = ''true''
         then Join (Getenv env ''GHORG_ORIGINAL_ABSOLUTE_PATH_TO_CLONE_TO'') ''_ghorg_stats.csv''
         else Join absolutePath ''_ghorg_stats.csv'')"

definition newHeaderFilePath :: "stats_env \<Rightarrow> string" where
  "newHeaderFilePath env =
     (let hashedHeader = hex_bytes (Sum256 env stats_header)
      in Join (Getenv env ''GHORG_ABSOLUTE_PATH_TO_CLONE_TO'')
           (''ghorg_stats_new_header_'' @ hashedHeader @ ''.csv''))"

text \<open>
  \<^verbatim>\<open>writeGhorgStats\<close>. The argument \<open>data\<close> is the row that \<^verbatim>\<open>fmt.Sprintf\<close> formats from the
  counters of the run, with its final line feed. Writes to an open file succeed. The result
  is the error returned (\<open>None\<close> for \<^verbatim>\<open>nil\<close>) and the files afterwards.
\<close>

definition writeGhorgStats :: "stats_env \<Rightarrow> files \<Rightarrow> string \<Rightarrow> stats_error option \<times> files" where
  "writeGhorgStats env fs data =
     (let statsFilePath = getGhorgStatsFilePath env;
          fileExists = (fs statsFilePath \<noteq> None);
          header = stats_header
      in if fileExists then
           (case readFirstLine fs statsFilePath of
              Inl err \<Rightarrow> (Some err, fs)
            | Inr existingHeader \<Rightarrow>
                if existingHeader @ [CHR 0x0A] \<noteq> header then
                  (if openFileFails env (newHeaderFilePath env)
                   then (Some (OpenFailed (newHeaderFilePath env)), fs)
                   else (None, append_file (append_file fs (newHeaderFilePath env) header)
                            (newHeaderFilePath env) data))
                else
                  (if openFileFails env statsFilePath
                   then (Some (OpenFailed statsFilePath), fs)
                   else (None, append_file fs statsFilePath data)))
         else
           (if openFileFails env statsFilePath
            then (Some (OpenFailed statsFilePath), fs)
            else (None, append_file (append_file fs statsFilePath header) statsFilePath data)))"

text \<open>The last element of a path: what follows its last slash.\<close>

definition base_name :: "string \<Rightarrow> string" where
  "base_name p = rev (takeWhile (\<lambda>c. c \<noteq> CHR ''/'') (rev p))"

text \<open>
  A stats location \<^verbatim>\<open>/clones\<close>; the digest function of the example returns the two bytes
  \<^verbatim>\<open>0xab 0x01\<close>. The old stats file has a header of three columns and one row.
\<close>

definition example_stats_env :: stats_env where
  "example_stats_env =
     \<lparr>Getenv = (\<lambda>name. if name = ''GHORG_ABSOLUTE_PATH_TO_CLONE_TO'' then ''/clones'' else []),
      Sum256 = (\<lambda>s. [171, 1]),
      openFileFails = (\<lambda>p. False)\<rparr>"

definition example_old_stats :: string where
  "example_old_stats = ''datetime,clonePath,scm'' @ [CHR 0x0A] @ ''2023-12-01,/clones/org,github'' @ [CHR 0x0A]"

definition example_files :: files where
  "example_files = [''/clones/_ghorg_stats.csv'' \<mapsto> example_old_stats]"

definition example_row :: string where
  "example_row = ''2024-01-01 10:00:00,/clones/org,github,org,org,5,3,2,0.00,10,0,1,0,1,0,false,false,false,45,v1'' @ [CHR 0x0A]"

section \<open>Synchronising the default branch (\<^verbatim>\<open>SyncDefaultBranch\<close>)\<close>

text \<open>
  The full names of a local branch and of its remote-tracking ref:
  \<^verbatim>\<open>fmt.Sprintf("refs/heads/%s", branch)\<close> and \<^verbatim>\<open>fmt.Sprintf("refs/remotes/origin/%s", branch)\<close>.
\<close>

definition branch_ref :: "string \<Rightarrow> string" where
  "branch_ref branch = ''refs/heads/'' @ branch"

definition remote_ref :: "string \<Rightarrow> string" where
  "remote_ref branch = ''refs/remotes/origin/'' @ branch"

text \<open>
  The operations of the \<^verbatim>\<open>Gitter\<close> interface that \<^verbatim>\<open>SyncDefaultBranch\<close> calls, over a
  repository state \<open>'s\<close>. Queries read the state and return an error (\<open>Inl\<close>) or a value;
  the three operations that change the repository return their error (\<open>None\<close> is \<^verbatim>\<open>nil\<close>)
  and the new state.
\<close>

datatype git_error = GitError string

record 's Gitter =
  GetRemoteURL :: "'s \<Rightarrow> Repo \<Rightarrow> string \<Rightarrow> git_error + string"
  GetRemoteDefaultBranch :: "'s \<Rightarrow> Repo \<Rightarrow> git_error + string"
  GetCurrentBranch :: "'s \<Rightarrow> Repo \<Rightarrow> git_error + string"
  HasLocalChanges :: "'s \<Rightarrow> Repo \<Rightarrow> git_error + bool"
  HasUnpushedCommits :: "'s \<Rightarrow> Repo \<Rightarrow> git_error + bool"
  GetRefHash :: "'s \<Rightarrow> Repo \<Rightarrow> string \<Rightarrow> git_error + string"
  FetchCloneBranch :: "Repo \<Rightarrow> 's \<Rightarrow> git_error option \<times> 's"
  MergeFastForward :: "Repo \<Rightarrow> 's \<Rightarrow> git_error option \<times> 's"
  UpdateRef :: "Repo \<Rightarrow> string \<Rightarrow> string \<Rightarrow> 's \<Rightarrow> git_error option \<times> 's"

text \<open>The state-changing calls a run makes, in order, with their branch or ref arguments.\<close>

datatype git_call =
    CallFetchCloneBranch string
  | CallMergeFastForward string
  | CallUpdateRef string string

text \<open>The errors \<^verbatim>\<open>SyncDefaultBranch\<close> returns, each wrapping the error of the failed call.\<close>

datatype sync_error =
    FailedDefaultBranch git_error
  | FailedCurrentBranch git_error
  | FailedStatus git_error
  | FailedFetch git_error
  | FailedMerge git_error
  | FailedUpdateRef git_error

text \<open>
  The result of a run: the pair \<^verbatim>\<open>(wasUpdated, err)\<close>, the repository afterwards, and the
  state-changing calls made.
\<close>

type_synonym 's sync_result = "(bool \<times> sync_error option) \<times> 's \<times> git_call list"

text \<open>
  Both backends end with the same statements, from the reading of the hash before the
  sync to the comparison of the hashes. \<^verbatim>\<open>repo.CloneBranch\<close> is set to the default branch
  for the fetch and the merge and is restored before \<^verbatim>\<open>UpdateRef\<close>.
\<close>

definition sync_compare_hashes ::
  "'s Gitter \<Rightarrow> Repo \<Rightarrow> string \<Rightarrow> string \<Rightarrow> 's \<Rightarrow> git_call list \<Rightarrow> 's sync_result" where
  "sync_compare_hashes g repo refName beforeHash s calls =
     (case GetRefHash g s repo refName of
        Inl err \<Rightarrow> ((True, None), s, calls)
      | Inr afterHash \<Rightarrow> ((beforeHash \<noteq> afterHash, None), s, calls))"

definition sync_fetch_and_update ::
  "'s Gitter \<Rightarrow> Repo \<Rightarrow> string \<Rightarrow> string \<Rightarrow> 's \<Rightarrow> 's sync_result" where
  "sync_fetch_and_update g repo currentBranch defaultBranch s =
     (let refName = branch_ref defaultBranch;
          beforeHash = (case GetRefHash g s repo refName of Inl err \<Rightarrow> [] | Inr h \<Rightarrow> h);
          fetchRepo = repo\<lparr>CloneBranch := defaultBranch\<rparr>
      in case FetchCloneBranch g fetchRepo s of
           (Some err, s1) \<Rightarrow>
             ((False, Some (FailedFetch err)), s1, [CallFetchCloneBranch defaultBranch])
         | (None, s1) \<Rightarrow>
             if currentBranch = defaultBranch then
               (case MergeFastForward g fetchRepo s1 of
                  (Some err, s2) \<Rightarrow>
                    ((False, Some (FailedMerge err)), s2,
                     [CallFetchCloneBranch defaultBranch, CallMergeFastForward defaultBranch])
                | (None, s2) \<Rightarrow>
                    sync_compare_hashes g repo refName beforeHash s2
                      [CallFetchCloneBranch defaultBranch, CallMergeFastForward defaultBranch])
             else
               (let commitRef = remote_ref defaultBranch
                in case UpdateRef g repo refName commitRef s1 of
                     (Some err, s2) \<Rightarrow>
                       ((False, Some (FailedUpdateRef err)), s2,
                        [CallFetchCloneBranch defaultBranch, CallUpdateRef refName commitRef])
                   | (None, s2) \<Rightarrow>
                       sync_compare_hashes g repo refName beforeHash s2
                         [CallFetchCloneBranch defaultBranch, CallUpdateRef refName commitRef]))"

text \<open>
  The default branch both backends work with: the remote's, or \<^verbatim>\<open>repo.CloneBranch\<close> when
  the remote's cannot be determined; the error when that is empty as well.
\<close>

definition detectDefaultBranch :: "'s Gitter \<Rightarrow> Repo \<Rightarrow> 's \<Rightarrow> git_error + string" where
  "detectDefaultBranch g repo s =
     (case GetRemoteDefaultBranch g s repo of
        Inr defaultBranch \<Rightarrow> Inr defaultBranch
      | Inl err \<Rightarrow> if CloneBranch repo = [] then Inl err else Inr (CloneBranch repo))"

text \<open>
  The check made when the current branch is the default branch: \<open>True\<close> when the sync is
  to be skipped, because there are unpushed commits or because the check failed.
\<close>

definition skip_for_unpushed :: "'s Gitter \<Rightarrow> Repo \<Rightarrow> string \<Rightarrow> string \<Rightarrow> 's \<Rightarrow> bool" where
  "skip_for_unpushed g repo currentBranch defaultBranch s =
     (currentBranch = defaultBranch \<and>
      (case HasUnpushedCommits g s repo of Inl err \<Rightarrow> True | Inr hasUnpushedCommits \<Rightarrow> hasUnpushedCommits))"

text \<open>
  \<^verbatim>\<open>GitClient.SyncDefaultBranch\<close> (subprocess backend, \<^verbatim>\<open>sync.go\<close>). The first argument after
  the operations is the value of \<^verbatim>\<open>GHORG_SYNC_DEFAULT_BRANCH\<close>. The order of the checks is:
  sync enabled, remote URL, default branch, current branch, working directory, unpushed
  commits.
\<close>

definition SyncDefaultBranch_exec :: "'s Gitter \<Rightarrow> string \<Rightarrow> Repo \<Rightarrow> 's \<Rightarrow> 's sync_result" where
  "SyncDefaultBranch_exec g syncEnabled repo s =
     (if syncEnabled \<noteq> ''true'' then ((False, None), s, [])
      else case GetRemoteURL g s repo ''origin'' of
        Inl err \<Rightarrow> ((False, None), s, [])
      | Inr url \<Rightarrow>
     (case detectDefaultBranch g repo s of
        Inl err \<Rightarrow> ((False, Some (FailedDefaultBranch err)), s, [])
      | Inr defaultBranch \<Rightarrow>
     (case GetCurrentBranch g s repo of
        Inl err \<Rightarrow> ((False, Some (FailedCurrentBranch err)), s, [])
      | Inr currentBranch \<Rightarrow>
     (case HasLocalChanges g s repo of
        Inl err \<Rightarrow> ((False, Some (FailedStatus err)), s, [])
      | Inr hasWorkingDirChanges \<Rightarrow>
          if hasWorkingDirChanges then ((False, None), s, [])
          else if skip_for_unpushed g repo currentBranch defaultBranch s then ((False, None), s, [])
          else sync_fetch_and_update g repo currentBranch defaultBranch s))))"

text \<open>
  \<^verbatim>\<open>goGitClient.SyncDefaultBranch\<close> (library backend). The order of the checks is: sync
  enabled, remote URL, working directory, current branch, default branch, unpushed commits.
\<close>

definition SyncDefaultBranch_gogit :: "'s Gitter \<Rightarrow> string \<Rightarrow> Repo \<Rightarrow> 's \<Rightarrow> 's sync_result" where
  "SyncDefaultBranch_gogit g syncEnabled repo s =
     (if syncEnabled \<noteq> ''true'' then ((False, None), s, [])
      else case GetRemoteURL g s repo ''origin'' of
        Inl err \<Rightarrow> ((False, None), s, [])
      | Inr url \<Rightarrow>
     (case HasLocalChanges g s repo of
        Inl err \<Rightarrow> ((False, Some (FailedStatus err)), s, [])
      | Inr hasWorkingDirChanges \<Rightarrow>
          if hasWorkingDirChanges then ((False, None), s, [])
          else
     (case GetCurrentBranch g s repo of
        Inl err \<Rightarrow> ((False, Some (FailedCurrentBranch err)), s, [])
      | Inr currentBranch \<Rightarrow>
     (case detectDefaultBranch g repo s of
        Inl err \<Rightarrow> ((False, Some (FailedDefaultBranch err)), s, [])
      | Inr defaultBranch \<Rightarrow>
          if skip_for_unpushed g repo currentBranch defaultBranch s then ((False, None), s, [])
          else sync_fetch_and_update g repo currentBranch defaultBranch s))))"

subsection \<open>A local clone and its remote\<close>

text \<open>
  The part of a clone that the synchronisation reads and writes: the ref store (full ref
  name to commit hash), what \<^verbatim>\<open>HEAD\<close> is, the commit whose tree fills index and working
  tree, the output of \<^verbatim>\<open>git status --short\<close>, whether the clone is bare, the commits known
  with their parents, the configuration of the remote \<^verbatim>\<open>origin\<close> (URL, the target of the
  symbolic ref \<^verbatim>\<open>refs/remotes/origin/HEAD\<close>, the upstream of each branch), and the remote
  repository itself (reachable or not, the target of its \<^verbatim>\<open>HEAD\<close>, its branches).
\<close>

datatype head_ref = OnBranch string | Detached string

record git_repo =
  refs :: "string \<rightharpoonup> string"
  HEAD :: head_ref
  checked_out :: "string option"
  status :: string
  bare :: bool
  commits :: "(string \<times> string list) list"
  origin_url :: "string option"
  origin_HEAD :: "string option"
  upstream :: "string \<rightharpoonup> string"
  remote_reachable :: bool
  remote_HEAD :: "string option"
  remote_heads :: "string \<rightharpoonup> string"

text \<open>
  \<open>is_ancestor s a b\<close>: commit \<open>a\<close> is \<open>b\<close> or is reached from \<open>b\<close> along parent links. A
  path without repetition is shorter than the number of commits, which bounds the search.
\<close>

fun reaches :: "nat \<Rightarrow> (string \<rightharpoonup> string list) \<Rightarrow> string \<Rightarrow> string \<Rightarrow> bool" where
  "reaches 0 g a b = (a = b)"
| "reaches (Suc k) g a b =
     (a = b \<or> (case g b of None \<Rightarrow> False | Some ps \<Rightarrow> list_ex (\<lambda>p. reaches k g a p) ps))"

definition is_ancestor :: "git_repo \<Rightarrow> string \<Rightarrow> string \<Rightarrow> bool" where
  "is_ancestor s a b = reaches (length (commits s)) (map_of (commits s)) a b"

text \<open>The commit \<^verbatim>\<open>HEAD\<close> resolves to; none on a branch that has no commit yet.\<close>

definition head_commit :: "git_repo \<Rightarrow> string option" where
  "head_commit s =
     (case HEAD s of OnBranch b \<Rightarrow> refs s (branch_ref b) | Detached h \<Rightarrow> Some h)"

text \<open>Moving what is checked out to a commit: the current branch (or a detached \<^verbatim>\<open>HEAD\<close>)
  and the working tree follow.\<close>

definition move_head_to :: "git_repo \<Rightarrow> string \<Rightarrow> git_repo" where
  "move_head_to s target =
     (case HEAD s of
        OnBranch b \<Rightarrow> s\<lparr>refs := (refs s)(branch_ref b \<mapsto> target), checked_out := Some target\<rparr>
      | Detached h \<Rightarrow> s\<lparr>HEAD := Detached target, checked_out := Some target\<rparr>)"

subsection \<open>Operations common to both backends\<close>

text \<open>
  \<^verbatim>\<open>GetRemoteURL\<close>: \<^verbatim>\<open>git remote get-url\<close>, respectively the first URL of the remote's
  configuration.
\<close>

definition git_GetRemoteURL :: "git_repo \<Rightarrow> Repo \<Rightarrow> string \<Rightarrow> git_error + string" where
  "git_GetRemoteURL s repo remote =
     (if remote = ''origin'' then
        (case origin_url s of
           None \<Rightarrow> Inl (GitError ''no such remote'')
         | Some url \<Rightarrow> Inr url)
      else Inl (GitError ''no such remote''))"

text \<open>\<^verbatim>\<open>HasLocalChanges\<close>: the short status is not empty; a bare clone has no work tree.\<close>

definition git_HasLocalChanges :: "git_repo \<Rightarrow> Repo \<Rightarrow> git_error + bool" where
  "git_HasLocalChanges s repo =
     (if bare s then Inl (GitError ''no work tree'') else Inr (status s \<noteq> []))"

text \<open>\<^verbatim>\<open>GetRefHash\<close>: \<^verbatim>\<open>git rev-parse ref\<close>, respectively \<^verbatim>\<open>r.Reference(ref, true)\<close>.\<close>

definition git_GetRefHash :: "git_repo \<Rightarrow> Repo \<Rightarrow> string \<Rightarrow> git_error + string" where
  "git_GetRefHash s repo ref =
     (case refs s ref of None \<Rightarrow> Inl (GitError ''unknown ref'') | Some h \<Rightarrow> Inr h)"

text \<open>
  \<^verbatim>\<open>FetchCloneBranch\<close>: \<^verbatim>\<open>git fetch origin branch\<close>, respectively a fetch with the refspec
  \<^verbatim>\<open>+refs/heads/branch:refs/remotes/origin/branch\<close>. The remote-tracking ref of the branch
  is set to the remote's commit; nothing else in the clone changes.
\<close>

definition git_FetchCloneBranch :: "Repo \<Rightarrow> git_repo \<Rightarrow> git_error option \<times> git_repo" where
  "git_FetchCloneBranch repo s =
     (if origin_url s = None then (Some (GitError ''no such remote''), s)
      else if \<not> remote_reachable s then (Some (GitError ''remote unavailable''), s)
      else
        (case remote_heads s (CloneBranch repo) of
           None \<Rightarrow> (Some (GitError ''no such remote ref''), s)
         | Some h \<Rightarrow>
             (None, s\<lparr>refs := (refs s)(remote_ref (CloneBranch repo) \<mapsto> h)\<rparr>)))"

text \<open>
  \<^verbatim>\<open>UpdateRef\<close>: resolve \<open>commitRef\<close> to its hash, then \<^verbatim>\<open>git update-ref refName sha\<close>,
  respectively \<^verbatim>\<open>r.Storer.SetReference\<close>.
\<close>

definition git_UpdateRef :: "Repo \<Rightarrow> string \<Rightarrow> string \<Rightarrow> git_repo \<Rightarrow> git_error option \<times> git_repo" where
  "git_UpdateRef repo refName commitRef s =
     (case refs s commitRef of
        None \<Rightarrow> (Some (GitError ''failed to resolve ref''), s)
      | Some sha \<Rightarrow> (None, s\<lparr>refs := (refs s)(refName \<mapsto> sha)\<rparr>))"

subsection \<open>The subprocess backend (\<^verbatim>\<open>GitClient\<close>)\<close>

text \<open>
  \<^verbatim>\<open>git symbolic-ref refs/remotes/origin/HEAD\<close>, the last element of its output; else
  \<^verbatim>\<open>git ls-remote --symref origin HEAD\<close> and the branch after \<^verbatim>\<open>refs/heads/\<close>.
\<close>

definition exec_GetRemoteDefaultBranch :: "git_repo \<Rightarrow> Repo \<Rightarrow> git_error + string" where
  "exec_GetRemoteDefaultBranch s repo =
     (case origin_HEAD s of
        Some target \<Rightarrow> Inr (last (Split_byte (CHR ''/'') (TrimSpace target)))
      | None \<Rightarrow>
          if origin_url s = None \<or> \<not> remote_reachable s then Inl (GitError ''ls-remote failed'')
          else
            (case remote_HEAD s of
               None \<Rightarrow> Inl (GitError ''could not determine default branch from ls-remote output'')
             | Some refPath \<Rightarrow>
                 if HasPrefix refPath ''refs/heads/'' then Inr (TrimPrefix refPath ''refs/heads/'')
                 else Inl (GitError ''could not determine default branch from ls-remote output'')))"

text \<open>
  \<^verbatim>\<open>git rev-parse --abbrev-ref HEAD\<close>: the branch name, \<^verbatim>\<open>HEAD\<close> when detached, and a failure
  on a branch without a commit.
\<close>

definition exec_GetCurrentBranch :: "git_repo \<Rightarrow> Repo \<Rightarrow> git_error + string" where
  "exec_GetCurrentBranch s repo =
     (case HEAD s of
        Detached h \<Rightarrow> Inr ''HEAD''
      | OnBranch b \<Rightarrow>
          if refs s (branch_ref b) = None then Inl (GitError ''unknown revision HEAD'')
          else Inr b)"

text \<open>
  \<^verbatim>\<open>git rev-list --count\<close> over the commits of \<^verbatim>\<open>HEAD\<close> that are not in its upstream: fails
  without an upstream; otherwise the count is
  positive exactly when the head commit is not reachable from the upstream.
\<close>

definition exec_HasUnpushedCommits :: "git_repo \<Rightarrow> Repo \<Rightarrow> git_error + bool" where
  "exec_HasUnpushedCommits s repo =
     (case HEAD s of
        Detached h \<Rightarrow> Inl (GitError ''HEAD does not point to a branch'')
      | OnBranch b \<Rightarrow>
          (case upstream s b of
             None \<Rightarrow> Inl (GitError ''no upstream configured'')
           | Some u \<Rightarrow>
               (case (refs s u, refs s (branch_ref b)) of
                  (Some upstreamHash, Some headHash) \<Rightarrow> Inr (\<not> is_ancestor s headHash upstreamHash)
                | _ \<Rightarrow> Inl (GitError ''unknown revision''))))"

text \<open>
  \<^verbatim>\<open>git merge --ff-only origin/CloneBranch\<close>: nothing to do when the remote commit is
  already contained in the head, a fast-forward when the head is an ancestor of the remote
  commit, and a refusal otherwise.
\<close>

definition exec_MergeFastForward :: "Repo \<Rightarrow> git_repo \<Rightarrow> git_error option \<times> git_repo" where
  "exec_MergeFastForward repo s =
     (case refs s (remote_ref (CloneBranch repo)) of
        None \<Rightarrow> (Some (GitError ''not something we can merge''), s)
      | Some target \<Rightarrow>
          if bare s then (Some (GitError ''no work tree''), s)
          else
            (case head_commit s of
               None \<Rightarrow> (None, move_head_to s target)
             | Some cur \<Rightarrow>
                 if is_ancestor s target cur then (None, s)
                 else if is_ancestor s cur target then (None, move_head_to s target)
                 else (Some (GitError ''Not possible to fast-forward, aborting''), s)))"

definition execGit :: "git_repo Gitter" where
  "execGit =
     \<lparr>GetRemoteURL = git_GetRemoteURL,
      GetRemoteDefaultBranch = exec_GetRemoteDefaultBranch,
      GetCurrentBranch = exec_GetCurrentBranch,
      HasLocalChanges = git_HasLocalChanges,
      HasUnpushedCommits = exec_HasUnpushedCommits,
      GetRefHash = git_GetRefHash,
      FetchCloneBranch = git_FetchCloneBranch,
      MergeFastForward = exec_MergeFastForward,
      UpdateRef = git_UpdateRef\<rparr>"

subsection \<open>The library backend (\<^verbatim>\<open>goGitClient\<close>)\<close>

text \<open>
  \<^verbatim>\<open>GetRemoteDefaultBranch\<close>: \<^verbatim>\<open>r.Reference(refs/remotes/origin/HEAD, true)\<close> resolves the
  symbolic ref, so the reference it returns is never of symbolic type and the function
  goes on to list the remote's references and takes the target of the remote's \<^verbatim>\<open>HEAD\<close>.
\<close>

definition gogit_GetRemoteDefaultBranch :: "git_repo \<Rightarrow> Repo \<Rightarrow> git_error + string" where
  "gogit_GetRemoteDefaultBranch s repo =
     (if origin_url s = None then Inl (GitError ''failed to get origin remote'')
      else if \<not> remote_reachable s then Inl (GitError ''failed to list remote references'')
      else
        (case remote_HEAD s of
           None \<Rightarrow> Inl (GitError ''could not determine default branch from remote'')
         | Some target \<Rightarrow>
             if HasPrefix target ''refs/heads/'' then Inr (TrimPrefix target ''refs/heads/'')
             else Inl (GitError ''could not determine default branch from remote'')))"

text \<open>\<^verbatim>\<open>GetCurrentBranch\<close>: the short branch name, or the first seven digits of the hash.\<close>

definition gogit_GetCurrentBranch :: "git_repo \<Rightarrow> Repo \<Rightarrow> git_error + string" where
  "gogit_GetCurrentBranch s repo =
     (case HEAD s of
        Detached h \<Rightarrow> Inr (take 7 h)
      | OnBranch b \<Rightarrow>
          if refs s (branch_ref b) = None then Inl (GitError ''reference not found'')
          else Inr b)"

text \<open>
  \<^verbatim>\<open>HasUnpushedCommits\<close>: the upstream is \<^verbatim>\<open>refs/remotes/origin/\<close> followed by the short name
  of \<^verbatim>\<open>HEAD\<close>; without it the answer is \<^verbatim>\<open>(false, nil)\<close>; otherwise the upstream must be an
  ancestor of the head and differ from it.
\<close>

definition gogit_HasUnpushedCommits :: "git_repo \<Rightarrow> Repo \<Rightarrow> git_error + bool" where
  "gogit_HasUnpushedCommits s repo =
     (case head_commit s of
        None \<Rightarrow> Inl (GitError ''reference not found'')
      | Some headHash \<Rightarrow>
          (let upstreamRef =
                 (case HEAD s of
                    OnBranch b \<Rightarrow> refs s (remote_ref b)
                  | Detached h \<Rightarrow>
                      (case origin_HEAD s of None \<Rightarrow> None | Some target \<Rightarrow> refs s target))
           in case upstreamRef of
                None \<Rightarrow> Inr False
              | Some upstreamHash \<Rightarrow>
                  Inr (is_ancestor s upstreamHash headHash \<and> headHash \<noteq> upstreamHash)))"

text \<open>
  \<^verbatim>\<open>MergeFastForward\<close>: the remote-tracking ref is looked up and the work tree is reset
  hard to its commit (\<^verbatim>\<open>w.Reset\<close> with \<^verbatim>\<open>HardReset\<close>): the current branch is set to that
  commit and index and working tree are overwritten.
\<close>

definition gogit_MergeFastForward :: "Repo \<Rightarrow> git_repo \<Rightarrow> git_error option \<times> git_repo" where
  "gogit_MergeFastForward repo s =
     (case refs s (remote_ref (CloneBranch repo)) of
        None \<Rightarrow> (Some (GitError ''failed to get remote branch''), s)
      | Some target \<Rightarrow>
          if bare s then (Some (GitError ''worktree not available in a bare repository''), s)
          else if head_commit s = None then (Some (GitError ''reference not found''), s)
          else (None, (move_head_to s target)\<lparr>status := []\<rparr>))"

definition goGit :: "git_repo Gitter" where
  "goGit =
     \<lparr>GetRemoteURL = git_GetRemoteURL,
      GetRemoteDefaultBranch = gogit_GetRemoteDefaultBranch,
      GetCurrentBranch = gogit_GetCurrentBranch,
      HasLocalChanges = git_HasLocalChanges,
      HasUnpushedCommits = gogit_HasUnpushedCommits,
      GetRefHash = git_GetRefHash,
      FetchCloneBranch = git_FetchCloneBranch,
      MergeFastForward = gogit_MergeFastForward,
      UpdateRef = git_UpdateRef\<rparr>"

subsection \<open>Backend selection\<close>

datatype backend = Library | Subprocess

definition gitter_of :: "backend \<Rightarrow> git_repo Gitter" where
  "gitter_of b = (case b of Library \<Rightarrow> goGit | Subprocess \<Rightarrow> execGit)"

definition SyncDefaultBranch :: "backend \<Rightarrow> string \<Rightarrow> Repo \<Rightarrow> git_repo \<Rightarrow> git_repo sync_result" where
  "SyncDefaultBranch b syncEnabled repo s =
     (case b of
        Library \<Rightarrow> SyncDefaultBranch_gogit goGit syncEnabled repo s
      | Subprocess \<Rightarrow> SyncDefaultBranch_exec execGit syncEnabled repo s)"

subsection \<open>Example clones\<close>

text \<open>
  The commits of the examples: \<^verbatim>\<open>a1\<close> is the root, \<^verbatim>\<open>b2\<close> (on the remote), \<^verbatim>\<open>c3\<close> (local) and
  \<^verbatim>\<open>f1\<close> (on branch \<^verbatim>\<open>feature\<close>) are children of \<^verbatim>\<open>a1\<close>.
\<close>

definition example_commits :: "(string \<times> string list) list" where
  "example_commits = [(''a1'', []), (''b2'', [''a1'']), (''c3'', [''a1'']), (''f1'', [''a1''])]"

text \<open>
  A clean clone checked out on \<^verbatim>\<open>feature\<close>; the default branch \<^verbatim>\<open>main\<close> is at \<^verbatim>\<open>a1\<close> locally
  and has advanced to \<^verbatim>\<open>b2\<close> on the remote.
\<close>

definition clone_on_feature :: git_repo where
  "clone_on_feature =
     \<lparr>refs = [''refs/heads/main'' \<mapsto> ''a1'', ''refs/heads/feature'' \<mapsto> ''f1'',
              ''refs/remotes/origin/main'' \<mapsto> ''a1''],
      HEAD = OnBranch ''feature'',
      checked_out = Some ''f1'',
      status = [],
      bare = False,
      commits = example_commits,
      origin_url = Some ''https://gitlab.example.com/group/app.git'',
      origin_HEAD = Some ''refs/remotes/origin/main'',
      upstream = [''main'' \<mapsto> ''refs/remotes/origin/main''],
      remote_reachable = True,
      remote_HEAD = Some ''refs/heads/main'',
      remote_heads = [''main'' \<mapsto> ''b2'']\<rparr>"


text \<open>
  A clone on \<^verbatim>\<open>main\<close> whose local commit \<^verbatim>\<open>c3\<close> and remote-tracking commit \<^verbatim>\<open>b2\<close> have
  diverged from \<^verbatim>\<open>a1\<close>.
\<close>

definition clone_diverged :: git_repo where
  "clone_diverged =
     \<lparr>refs = [''refs/heads/main'' \<mapsto> ''c3'', ''refs/remotes/origin/main'' \<mapsto> ''b2''],
      HEAD = OnBranch ''main'',
      checked_out = Some ''c3'',
      status = [],
      bare = False,
      commits = example_commits,
      origin_url = Some ''https://gitlab.example.com/group/app.git'',
      origin_HEAD = Some ''refs/remotes/origin/main'',
      upstream = [''main'' \<mapsto> ''refs/remotes/origin/main''],
      remote_reachable = True,
      remote_HEAD = Some ''refs/heads/main'',
      remote_heads = [''main'' \<mapsto> ''b2'']\<rparr>"



text \<open>
  A clean clone of a repository whose default branch is \<^verbatim>\<open>release/v1\<close> and which also has a
  branch \<^verbatim>\<open>v1\<close>; on the remote \<^verbatim>\<open>release/v1\<close> has advanced to \<^verbatim>\<open>b2\<close> and \<^verbatim>\<open>v1\<close> to \<^verbatim>\<open>c3\<close>. The
  clone is checked out on \<^verbatim>\<open>feature\<close>; in the second one on \<^verbatim>\<open>v1\<close>.
\<close>

definition clone_release_default :: git_repo where
  "clone_release_default =
     \<lparr>refs = [''refs/heads/release/v1'' \<mapsto> ''a1'', ''refs/heads/v1'' \<mapsto> ''a1'',
              ''refs/heads/feature'' \<mapsto> ''f1'',
              ''refs/remotes/origin/release/v1'' \<mapsto> ''a1'', ''refs/remotes/origin/v1'' \<mapsto> ''a1''],
      HEAD = OnBranch ''feature'',
      checked_out = Some ''f1'',
      status = [],
      bare = False,
      commits = example_commits,
      origin_url = Some ''https://gitlab.example.com/group/app.git'',
      origin_HEAD = Some ''refs/remotes/origin/release/v1'',
      upstream = [''release/v1'' \<mapsto> ''refs/remotes/origin/release/v1'',
                  ''v1'' \<mapsto> ''refs/remotes/origin/v1''],
      remote_reachable = True,
      remote_HEAD = Some ''refs/heads/release/v1'',
      remote_heads = [''release/v1'' \<mapsto> ''b2'', ''v1'' \<mapsto> ''c3'']\<rparr>"

definition clone_release_default_on_v1 :: git_repo where
  "clone_release_default_on_v1 =
     clone_release_default\<lparr>HEAD := OnBranch ''v1'', checked_out := Some ''a1''\<rparr>"

section \<open>Destination paths and name collisions\<close>

text \<open>
  \<^verbatim>\<open>
  func getAppNameFromURL(url string) string {
      withGit := strings.Split(url, "/")
      appName := withGit[len(withGit)-1]
      split := strings.Split(appName, ".")
      return strings.Join(split[0:len(split)-1], ".")
  }
  \<close>
  \<^verbatim>\<open>strings.Split\<close> returns at least one element, so both index expressions are in range.
\<close>

definition getAppNameFromURL :: "string \<Rightarrow> string" where
  "getAppNameFromURL url =
     (let withGit = Split_byte (CHR ''/'') url;
          appName = last withGit;
          split = Split_byte (CHR ''.'') appName
      in Join_sep ''.'' (butlast split))"

text \<open>\<^verbatim>\<open>isPathSegmentSafe\<close>: no slash and no path separator (the slash, on Unix).\<close>

definition isPathSegmentSafe :: "string \<Rightarrow> bool" where
  "isPathSegmentSafe seg = (CHR ''/'' \<notin> set seg)"

text \<open>
  The directory name \<^verbatim>\<open>CloneAllRepos\<close> hands to the processor for a repository: the name
  taken from the URL (the repository's own name on sourcehut and for root-level snippets),
  checked by \<^verbatim>\<open>isPathSegmentSafe\<close> (\<^verbatim>\<open>log.Fatal\<close> otherwise), and replaced by \<^verbatim>\<open>repo.Path\<close>
  when the directory structure is preserved.
\<close>

definition repoSlug_of :: "(string \<Rightarrow> string) \<Rightarrow> Repo \<Rightarrow> stop + string" where
  "repoSlug_of env repo =
     (let repoSlug =
            (if env ''GHORG_SCM_TYPE'' = ''sourcehut'' then Name repo
             else if IsGitLabSnippet repo \<and> \<not> IsGitLabRootLevelSnippet repo
               then getAppNameFromURL (GitLabSnippetInfo_URLOfRepo repo)
             else if IsGitLabRootLevelSnippet repo then Name repo
             else getAppNameFromURL (URL repo))
      in if \<not> isPathSegmentSafe repoSlug then Inl (Exit 1)
         else if Path repo \<noteq> [] \<and> env ''GHORG_PRESERVE_DIRECTORY_STRUCTURE'' = ''true''
           then Inr (Path repo)
         else Inr repoSlug)"

text \<open>
  \<^verbatim>\<open>
  func hasRepoNameCollisions(repos []scm.Repo) (map[string]bool, bool) {
      repoNameWithCollisions := make(map[string]bool)
      if os.Getenv("GHORG_GITLAB_TOKEN") == "" { return repoNameWithCollisions, false }
      if os.Getenv("GHORG_PRESERVE_DIRECTORY_STRUCTURE") == "true" {
          return repoNameWithCollisions, false
      }
      hasCollisions := false
      for _, repo := range repos {
          if repo.IsGitLabSnippet { continue }
          if repo.IsWiki { continue }
          if _, ok := repoNameWithCollisions[repo.Name]; ok {
              repoNameWithCollisions[repo.Name] = true
              hasCollisions = true
          } else {
              repoNameWithCollisions[repo.Name] = false
          }
      }
      return repoNameWithCollisions, hasCollisions
  }
  \<close>
\<close>

fun collisions_loop :: "Repo list \<Rightarrow> (string \<rightharpoonup> bool) \<Rightarrow> bool \<Rightarrow> (string \<rightharpoonup> bool) \<times> bool" where
  "collisions_loop [] repoNameWithCollisions hasCollisions =
     (repoNameWithCollisions, hasCollisions)"
| "collisions_loop (repo # repos) repoNameWithCollisions hasCollisions =
     (if IsGitLabSnippet repo then collisions_loop repos repoNameWithCollisions hasCollisions
      else if IsWiki repo then collisions_loop repos repoNameWithCollisions hasCollisions
      else
        (case repoNameWithCollisions (Name repo) of
           Some seen \<Rightarrow>
             collisions_loop repos (repoNameWithCollisions(Name repo \<mapsto> True)) True
         | None \<Rightarrow>
             collisions_loop repos (repoNameWithCollisions(Name repo \<mapsto> False)) hasCollisions))"

definition hasRepoNameCollisions ::
  "(string \<Rightarrow> string) \<Rightarrow> Repo list \<Rightarrow> (string \<rightharpoonup> bool) \<times> bool" where
  "hasRepoNameCollisions env repos =
     (if env ''GHORG_GITLAB_TOKEN'' = [] then (Map.empty, False)
      else if env ''GHORG_PRESERVE_DIRECTORY_STRUCTURE'' = ''true'' then (Map.empty, False)
      else collisions_loop repos Map.empty False)"

text \<open>
  Modelled from the spec: \<^verbatim>\<open>RepositoryProcessor.ProcessRepository\<close>, which turns the
  directory name and the collision map into the destination \<^verbatim>\<open>HostPath\<close>, is not among the
  sources. The spec says (section 4.4) that the destination is the clone root joined with
  the name; that for every non-snippet non-wiki repository whose short \<^verbatim>\<open>Name\<close> collides
  with another the namespace path is appended to disambiguate; and that a colliding name
  that would exceed 248 characters is truncated at the last underscore inside the limit.
  The namespace path is \<^verbatim>\<open>Repo.Path\<close>, in which a leading slash is ignored (section 3). The
  name with its suffix is one file name, cut at an underscore by \<^verbatim>\<open>trimCollisionFilename\<close>
  (which is among the sources): so the separators of the appended path are written as
  underscores, and the suffix follows the name after an underscore. The spec does not
  give the format more closely than that; the properties below that depend on it say so.
  The suffixes of wikis and snippets are not modelled.
\<close>

definition namespace_suffix :: "Repo \<Rightarrow> string" where
  "namespace_suffix repo = ReplaceAll_byte (TrimPrefix (Path repo) ''/'') (CHR ''/'') (CHR ''_'')"

definition planned_name :: "(string \<rightharpoonup> bool) \<Rightarrow> bool \<Rightarrow> Repo \<Rightarrow> string \<Rightarrow> stop + string" where
  "planned_name repoNameWithCollisions hasCollisions repo repoSlug =
     (if hasCollisions \<and> \<not> IsGitLabSnippet repo \<and> \<not> IsWiki repo \<and>
         repoNameWithCollisions (Name repo) = Some True
      then
        (case trimCollisionFilename (repoSlug @ ''_'' @ namespace_suffix repo) of
           Inl p \<Rightarrow> Inl (Panic p)
         | Inr name \<Rightarrow> Inr name)
      else Inr repoSlug)"

text \<open>
  The destination of one kept repository in a run over the kept set \<open>kept\<close> below the clone
  root \<open>root\<close>: the collision map of the whole set, the directory name, the planned name.
\<close>

definition hostPath_of :: "(string \<Rightarrow> string) \<Rightarrow> string \<Rightarrow> Repo list \<Rightarrow> Repo \<Rightarrow> stop + string" where
  "hostPath_of env root kept repo =
     (let (repoNameWithCollisions, hasCollisions) = hasRepoNameCollisions env kept
      in case repoSlug_of env repo of
           Inl halt \<Rightarrow> Inl halt
         | Inr repoSlug \<Rightarrow>
             (case planned_name repoNameWithCollisions hasCollisions repo repoSlug of
                Inl halt \<Rightarrow> Inl halt
              | Inr name \<Rightarrow> Inr (Join root name)))"

text \<open>A repository is plain when it is neither a snippet nor a wiki.\<close>

definition plain_repo :: "Repo \<Rightarrow> bool" where
  "plain_repo repo = (\<not> IsGitLabSnippet repo \<and> \<not> IsWiki repo)"

text \<open>
  Two environments of the examples: GitLab with a token, and GitLab without one (public
  groups cloned with no token).
\<close>

definition example_env_gitlab_token :: "string \<Rightarrow> string" where
  "example_env_gitlab_token name =
     (case map_of [(''GHORG_SCM_TYPE'', ''gitlab''), (''GHORG_GITLAB_TOKEN'', ''glpat-x'')] name of
        None \<Rightarrow> [] | Some v \<Rightarrow> v)"

definition example_env_no_token :: "string \<Rightarrow> string" where
  "example_env_no_token name =
     (case map_of [(''GHORG_SCM_TYPE'', ''gitlab'')] name of None \<Rightarrow> [] | Some v \<Rightarrow> v)"

text \<open>
  Two repositories named \<^verbatim>\<open>app\<close> in groups with long names: \<^verbatim>\<open>g/aaa...a/app\<close> and
  \<^verbatim>\<open>g/bbb...b/app\<close>, the middle element 250 letters long.
\<close>

definition example_long_repo :: "char \<Rightarrow> Repo" where
  "example_long_repo c = example_repo ''app'' (''g/'' @ replicate 250 c @ ''/app'')"

section \<open>Properties of \<^verbatim>\<open>trimCollisionFilename\<close>\<close>

lemma LastIndex_replicate_other: "x \<noteq> c \<Longrightarrow> LastIndex (replicate n x) c = - 1"
  by (induction n) simp_all

lemma LastIndex_bounds: "- 1 \<le> LastIndex s c \<and> LastIndex s c < int (length s)"
  by (induction s) (auto simp: Let_def)

lemma LastIndex_absent: "LastIndex s c = - 1 \<longleftrightarrow> c \<notin> set s"
proof (induction s)
  case Nil
  show ?case by simp
next
  case (Cons x xs)
  have "- 1 \<le> LastIndex xs c" by (simp add: LastIndex_bounds)
  with Cons show ?case by (auto simp: Let_def)
qed

lemma trimCollisionFilename_short:
  "length filename \<le> 248 \<Longrightarrow> trimCollisionFilename filename = Inr filename"
  by (simp add: trimCollisionFilename_def)

text \<open>
  C7. The claim is that \<^verbatim>\<open>trimCollisionFilename\<close> returns for every file name and that
  its slice indices are always in bounds. At a name of 249 bytes without an underscore
  \<^verbatim>\<open>strings.LastIndex\<close> yields \<open>-1\<close> and the slice expression \<^verbatim>\<open>filename[:-1]\<close>
  panics.
\<close>

theorem trimCollisionFilename_panics_without_underscore:
  "trimCollisionFilename (replicate 249 (CHR ''a'')) = Inl (SliceBoundsOutOfRange (- 1))"
  by (simp add: trimCollisionFilename_def slice_to_def LastIndex_replicate_other)

section \<open>The pruner deletes inside the clone root only\<close>

lemma prune_delete_removed:
  "prune_delete env p st = (h, st') \<Longrightarrow> removed st' = removed st @ [p]"
  by (auto simp: prune_delete_def Let_def)

lemma prune_step_removed:
  assumes "prune_step env ts r st = (h, st')"
  shows "removed st' = removed st \<or>
         (removed st' = removed st @ [Join (outputDirAbsolutePath env) r] \<and>
          HasPrefix (Join (outputDirAbsolutePath env) r) (outputDirAbsolutePath env))"
  using assms
  by (auto simp: prune_step_def Let_def split: if_splits prod.splits sum.splits
           dest!: prune_delete_removed)

lemma prune_step_check_fails:
  "\<not> HasPrefix (Join (outputDirAbsolutePath env) r) (outputDirAbsolutePath env) \<Longrightarrow>
   prune_step env ts r st = (Some (Exit 1), st)"
  by (simp add: prune_step_def Let_def)

lemma prune_loop_removed_inside:
  assumes "prune_loop env ts rs st = (h, st')"
    and "\<forall>p \<in> set (removed st). HasPrefix p (outputDirAbsolutePath env)"
  shows "\<forall>p \<in> set (removed st'). HasPrefix p (outputDirAbsolutePath env)"
  using assms
proof (induction rs arbitrary: st)
  case Nil
  then show ?case by simp
next
  case (Cons r rs)
  obtain h1 st1 where step: "prune_step env ts r st = (h1, st1)"
    by (cases "prune_step env ts r st")
  from prune_step_removed[OF step] Cons.prems(2)
  have inv: "\<forall>p \<in> set (removed st1). HasPrefix p (outputDirAbsolutePath env)" by auto
  show ?case
  proof (cases h1)
    case None
    with Cons.prems(1) step have "prune_loop env ts rs st1 = (h, st')" by simp
    from Cons.IH[OF this inv] show ?thesis .
  next
    case (Some a)
    with Cons.prems(1) step have "st' = st1" by simp
    with inv show ?thesis by simp
  qed
qed

lemma prune_loop_check_fails:
  assumes "r \<in> set rs"
    and "\<not> HasPrefix (Join (outputDirAbsolutePath env) r) (outputDirAbsolutePath env)"
  shows "fst (prune_loop env ts rs st) \<noteq> None"
  using assms
proof (induction rs arbitrary: st)
  case Nil
  then show ?case by simp
next
  case (Cons x xs)
  show ?case
  proof (cases "x = r")
    case True
    with Cons.prems(2) show ?thesis by (simp add: prune_step_check_fails)
  next
    case False
    with Cons.prems(1) have "r \<in> set xs" by simp
    from Cons.IH[OF this Cons.prems(2)] show ?thesis
      by (auto split: prod.splits option.splits)
  qed
qed

lemma example_walk:
  "getRelativePathRepositories example_tree = Inr [''a'', ''b'', ''c'']"
  by (simp add: getRelativePathRepositories_def example_tree_def isGitRepository_def)

lemma example_joins:
  "Join ''/r'' ''a'' = ''/r/a''" "Join ''/r'' ''b'' = ''/r/b''" "Join ''/r'' ''c'' = ''/r/c''"
  by (simp_all add: Join_def Clean_def)

lemma example_contains:
  "sliceContainsNamedRepo [example_repo ''a'' ''/a''] ''a''"
  "\<not> sliceContainsNamedRepo [example_repo ''a'' ''/a''] ''b''"
  "\<not> sliceContainsNamedRepo [example_repo ''a'' ''/a''] ''c''"
  by (simp_all add: sliceContainsNamedRepo_def normalizePath_def TrimPrefix_def HasPrefix_def
        ReplaceAll_byte_def ToSlash_def example_repo_def)

lemma example_prune_no_confirm:
  "pruneRepos (example_env True) [example_repo ''a'' ''/a''] example_tree [] =
     (None, \<lparr>userAgreesToDelete = True, count = 2, removed = [''/r/b'', ''/r/c''], stdin = []\<rparr>)"
  by (simp add: pruneRepos_def example_walk prune_step_def prune_delete_def example_joins
        example_contains example_env_def HasPrefix_def)

text \<open>
  With the root variable set to \<^verbatim>\<open>/r/../s\<close> the joined path is \<^verbatim>\<open>/s/a\<close>, the check fails
  at the first repository and the run exits before any call of \<^verbatim>\<open>os.RemoveAll\<close>.
\<close>

lemma example_prune_check_fails:
  "pruneRepos example_env_unclean [] example_tree [] =
     (Some (Exit 1), \<lparr>userAgreesToDelete = True, count = 0, removed = [], stdin = []\<rparr>)"
  by (simp add: pruneRepos_def example_walk prune_step_def example_env_unclean_def
        Join_def Clean_def HasPrefix_def)

lemma prune_loop_append:
  "prune_loop env ts (xs @ ys) st =
     (case prune_loop env ts xs st of
        (Some halt, st') \<Rightarrow> (Some halt, st')
      | (None, st') \<Rightarrow> prune_loop env ts ys st')"
  by (induction xs arbitrary: st) (auto split: prod.splits option.splits)

text \<open>
  A repository that fails the check ends the run where the loop stood when it reached
  it: the state is the one left by the repositories before it, and the run exits with
  status 1 unless it had already stopped among those.
\<close>

lemma prune_loop_stops_at_failed_check:
  assumes "\<not> HasPrefix (Join (outputDirAbsolutePath env) r) (outputDirAbsolutePath env)"
    and "prune_loop env ts before st0 = (h, st)"
  shows "prune_loop env ts (before @ r # after) st0 =
           (Some (case h of None \<Rightarrow> Exit 1 | Some earlier \<Rightarrow> earlier), st)"
  using assms by (cases h) (simp_all add: prune_loop_append prune_step_check_fails)

text \<open>
  C3. Whatever the clone tree, the kept repositories and the input, every path
  handed to \<^verbatim>\<open>os.RemoveAll\<close> by \<^verbatim>\<open>pruneRepos\<close> passed the check that it begins with the
  clone root. And when a listed repository fails that check, the run is over before that
  repository or any later one is touched: the final state is the state the loop had
  reached after the repositories listed before it, and the run has exited with status 1
  there (or had already stopped among the earlier repositories).
\<close>

theorem pruneRepos_removes_only_inside_root:
  assumes "pruneRepos env cloneTargets tree input = (halt, st)"
  shows "(\<forall>p \<in> set (removed st). HasPrefix p (outputDirAbsolutePath env)) \<and>
         (\<forall>before r after.
            getRelativePathRepositories tree = Inr (before @ r # after) \<and>
            \<not> HasPrefix (Join (outputDirAbsolutePath env) r) (outputDirAbsolutePath env) \<longrightarrow>
            (\<exists>h. prune_loop env cloneTargets before
                    \<lparr>userAgreesToDelete = True, count = 0, removed = [], stdin = input\<rparr> = (h, st) \<and>
                  halt = Some (case h of None \<Rightarrow> Exit 1 | Some earlier \<Rightarrow> earlier)))"
proof (cases "getRelativePathRepositories tree")
  case (Inl e)
  with assms show ?thesis by (auto simp: pruneRepos_def)
next
  case (Inr rs)
  let ?st0 = "\<lparr>userAgreesToDelete = True, count = 0, removed = [], stdin = input\<rparr>"
  from Inr assms have run: "prune_loop env cloneTargets rs ?st0 = (halt, st)"
    by (simp add: pruneRepos_def)
  have inside: "\<forall>p \<in> set (removed st). HasPrefix p (outputDirAbsolutePath env)"
    using prune_loop_removed_inside[OF run] by simp
  have stops: "\<exists>h. prune_loop env cloneTargets before ?st0 = (h, st) \<and>
                  halt = Some (case h of None \<Rightarrow> Exit 1 | Some earlier \<Rightarrow> earlier)"
    if split: "rs = before @ r # after"
      and fails: "\<not> HasPrefix (Join (outputDirAbsolutePath env) r) (outputDirAbsolutePath env)"
    for before r after
  proof -
    obtain h st1 where before: "prune_loop env cloneTargets before ?st0 = (h, st1)"
      by (cases "prune_loop env cloneTargets before ?st0")
    from prune_loop_stops_at_failed_check[OF fails before, of after] run split
    have "halt = Some (case h of None \<Rightarrow> Exit 1 | Some earlier \<Rightarrow> earlier)" and "st = st1"
      by simp_all
    with before show ?thesis by blast
  qed
  from inside stops Inr show ?thesis by auto
qed

text \<open>
  The witness: the run without prompts that deletes \<^verbatim>\<open>b\<close> and \<^verbatim>\<open>c\<close> below \<^verbatim>\<open>/r\<close>, and the
  run with the root variable set to \<^verbatim>\<open>/r/../s\<close>, where the first repository fails the check
  and the run exits with status 1 in its initial state.
\<close>

theorem pruneRepos_removes_only_inside_root_witness:
  "pruneRepos (example_env True) [example_repo ''a'' ''/a''] example_tree [] =
     (None, \<lparr>userAgreesToDelete = True, count = 2, removed = [''/r/b'', ''/r/c''], stdin = []\<rparr>)
   \<and> HasPrefix ''/r/b'' ''/r'' \<and> HasPrefix ''/r/c'' ''/r''
   \<and> getRelativePathRepositories example_tree = Inr ([] @ ''a'' # [''b'', ''c''])
   \<and> \<not> HasPrefix (Join ''/r/../s'' ''a'') ''/r/../s''
   \<and> pruneRepos example_env_unclean [] example_tree [] =
     (Some (Exit 1), \<lparr>userAgreesToDelete = True, count = 0, removed = [], stdin = []\<rparr>)"
proof -
  note run = example_prune_no_confirm
  from pruneRepos_removes_only_inside_root [OF run]
  have inside: "HasPrefix ''/r/b'' ''/r'' \<and> HasPrefix ''/r/c'' ''/r''"
    by (simp add: example_env_def)
  have walk: "getRelativePathRepositories example_tree = Inr ([] @ ''a'' # [''b'', ''c''])"
    by (simp add: example_walk)
  have fails: "\<not> HasPrefix (Join ''/r/../s'' ''a'') ''/r/../s''"
    by (simp add: Join_def Clean_def HasPrefix_def)
  obtain halt st where run2: "pruneRepos example_env_unclean [] example_tree [] = (halt, st)"
    by (cases "pruneRepos example_env_unclean [] example_tree []")
  have root: "outputDirAbsolutePath example_env_unclean = ''/r/../s''"
    by (simp add: example_env_unclean_def)
  have "\<exists>h. prune_loop example_env_unclean [] []
        \<lparr>userAgreesToDelete = True, count = 0, removed = [], stdin = []\<rparr> = (h, st) \<and>
        halt = Some (case h of None \<Rightarrow> Exit 1 | Some earlier \<Rightarrow> earlier)"
    using pruneRepos_removes_only_inside_root
            [OF run2, THEN conjunct2, rule_format, of "[]" "''a''" "[''b'', ''c'']",
             unfolded root, OF conjI [OF walk fails]] .
  then have "halt = Some (Exit 1)"
    and "st = \<lparr>userAgreesToDelete = True, count = 0, removed = [], stdin = []\<rparr>"
    by auto
  with run2 run inside walk fails show ?thesis by simp
qed

section \<open>Interactive pruning stops at the first refusal\<close>

lemma prune_step_declined:
  "\<not> userAgreesToDelete st \<Longrightarrow> \<exists>h. prune_step env ts r st = (h, st)"
  by (simp add: prune_step_def Let_def)

lemma prune_loop_declined:
  "\<not> userAgreesToDelete st \<Longrightarrow> \<exists>h. prune_loop env ts rs st = (h, st)"
proof (induction rs)
  case Nil
  then show ?case by simp
next
  case (Cons r rs)
  from prune_step_declined[OF Cons.prems] obtain h1 where
    "prune_step env ts r st = (h1, st)" by blast
  with Cons show ?case by (cases h1) auto
qed

lemma example_answers:
  "interactiveYesNoPrompt [typed '' Yes'', typed ''no'', typed ''y''] =
     (Inr True, [typed ''no'', typed ''y''])"
  "interactiveYesNoPrompt [typed ''no'', typed ''y''] = (Inr False, [typed ''y''])"
  by code_simp+

text \<open>
  White space around the answer is trimmed, also when it is not ASCII (here a no-break
  space, U+00A0, after the word); an answer may arrive in several chunks.
\<close>

lemma example_answers_trimmed:
  "interactiveYesNoPrompt [''YES'' @ [CHR 0xC2, CHR 0xA0, CHR 0x0D, CHR 0x0A]] = (Inr True, [])"
  "interactiveYesNoPrompt [''ye'', typed ''s'', typed ''n''] = (Inr True, [typed ''n''])"
  "interactiveYesNoPrompt [typed ''yes please''] = (Inr False, [])"
  by code_simp+

text \<open>
  When the answers come from a pipe that already holds them, the reader of the first
  prompt takes them all: the first answer is understood, and the second prompt finds the
  end of the input and panics.
\<close>

lemma example_answers_piped:
  "interactiveYesNoPrompt [typed ''y'' @ typed ''n''] = (Inr True, [])"
  "interactiveYesNoPrompt [] = (Inl (PanicErr ''EOF''), [])"
  "pruneRepos (example_env False) [] example_tree [typed ''y'' @ typed ''n''] =
     (Some (Panic (PanicErr ''EOF'')),
      \<lparr>userAgreesToDelete = True, count = 1, removed = [''/r/a''], stdin = []\<rparr>)"
  by code_simp+

text \<open>
  C8. In interactive mode, let the run reach a candidate with the user still agreeing,
  and let the answer read at its prompt be anything that is not \<^verbatim>\<open>y\<close> or \<^verbatim>\<open>yes\<close>. Then
  the whole run ends in the state it had at that prompt, with the flag cleared and the
  input of that one prompt consumed: no later repository is deleted or counted, and
  nothing more is read, whatever input follows.
\<close>

theorem pruneRepos_no_deletion_after_decline:
  assumes walk: "getRelativePathRepositories tree = Inr (before @ repository # after)"
    and before: "prune_loop env cloneTargets before
                   \<lparr>userAgreesToDelete = True, count = 0, removed = [], stdin = input\<rparr> = (None, st)"
    and agrees: "userAgreesToDelete st"
    and interactive: "\<not> pruneNoConfirm env"
    and candidate: "\<not> sliceContainsNamedRepo cloneTargets repository"
    and inside: "HasPrefix (Join (outputDirAbsolutePath env) repository) (outputDirAbsolutePath env)"
    and answer: "interactiveYesNoPrompt (stdin st) = (Inr False, rest)"
  shows "\<exists>halt. pruneRepos env cloneTargets tree input =
           (halt, st\<lparr>userAgreesToDelete := False, stdin := rest\<rparr>)"
proof -
  let ?st1 = "st\<lparr>userAgreesToDelete := False, stdin := rest\<rparr>"
  have step: "prune_step env cloneTargets repository st = (None, ?st1)"
    using agrees interactive candidate inside answer by (simp add: prune_step_def Let_def)
  have "\<not> userAgreesToDelete ?st1" by simp
  from prune_loop_declined[OF this] obtain h where
    rest: "prune_loop env cloneTargets after ?st1 = (h, ?st1)" by blast
  have "prune_loop env cloneTargets (before @ repository # after)
          \<lparr>userAgreesToDelete = True, count = 0, removed = [], stdin = input\<rparr> = (h, ?st1)"
    using before step rest by (simp add: prune_loop_append)
  with walk show ?thesis by (auto simp: pruneRepos_def)
qed

text \<open>
  The witness: nothing is kept on the remote, the user accepts the deletion of \<^verbatim>\<open>a\<close>,
  refuses that of \<^verbatim>\<open>b\<close>, and \<^verbatim>\<open>c\<close> stays although the next line typed would be a yes.
\<close>

theorem pruneRepos_no_deletion_after_decline_witness:
  "pruneRepos (example_env False) [] example_tree [typed '' Yes'', typed ''no'', typed ''y''] =
     (None, \<lparr>userAgreesToDelete = False, count = 1, removed = [''/r/a''], stdin = [typed ''y'']\<rparr>)"
proof -
  let ?input = "[typed '' Yes'', typed ''no'', typed ''y'']"
  let ?st = "\<lparr>userAgreesToDelete = True, count = 1, removed = [''/r/a''],
              stdin = [typed ''no'', typed ''y'']\<rparr>"
  have walk: "getRelativePathRepositories example_tree = Inr ([''a''] @ ''b'' # [''c''])"
    by (simp add: example_walk)
  have before: "prune_loop (example_env False) [] [''a'']
       \<lparr>userAgreesToDelete = True, count = 0, removed = [], stdin = ?input\<rparr> = (None, ?st)"
    by (simp add: prune_step_def prune_delete_def example_joins example_answers
          example_env_def HasPrefix_def sliceContainsNamedRepo_def)
  have agrees: "userAgreesToDelete ?st" by simp
  have interactive: "\<not> pruneNoConfirm (example_env False)" by (simp add: example_env_def)
  have candidate: "\<not> sliceContainsNamedRepo [] ''b''" by (simp add: sliceContainsNamedRepo_def)
  have inside: "HasPrefix (Join (outputDirAbsolutePath (example_env False)) ''b'')
                  (outputDirAbsolutePath (example_env False))"
    by (simp add: example_env_def example_joins HasPrefix_def)
  have answer: "interactiveYesNoPrompt (stdin ?st) = (Inr False, [typed ''y''])"
    by (simp add: example_answers)
  from pruneRepos_no_deletion_after_decline
         [OF walk before agrees interactive candidate inside answer]
  obtain halt where run: "pruneRepos (example_env False) [] example_tree ?input =
      (halt, ?st\<lparr>userAgreesToDelete := False, stdin := [typed ''y'']\<rparr>)" by blast
  have "pruneRepos (example_env False) [] example_tree ?input =
      (None, \<lparr>userAgreesToDelete = False, count = 1, removed = [''/r/a''],
              stdin = [typed ''y'']\<rparr>)"
    by (simp add: pruneRepos_def example_walk prune_step_def prune_delete_def example_joins
          example_answers example_env_def HasPrefix_def sliceContainsNamedRepo_def)
  with run show ?thesis by simp
qed

section \<open>Prune candidates and the prune count\<close>

lemma cgd_leaf [simp]:
  "contains_git_directory File suf = False" "contains_git_directory Unreadable suf = False"
  by (cases suf; simp add: contains_git_directory_def)+

lemma cgd_Dir_Nil:
  "contains_git_directory (Dir es) [] = isGitRepository (Dir es)"
  by (auto simp: contains_git_directory_def isGitRepository_def is_directory_def
           split: option.splits fnode.splits)

lemma cgd_Dir_Cons:
  "contains_git_directory (Dir es) (n # suf) =
     (case map_of es n of None \<Rightarrow> False | Some c \<Rightarrow> contains_git_directory c suf)"
  by (simp add: contains_git_directory_def split: option.splits)

lemma walk_sound:
  "(\<forall>found. walkDir rel t = Inr found \<longrightarrow> wf_tree t \<longrightarrow>
      set found = {rel @ suf | suf. rel @ suf \<noteq> [] \<and> contains_git_directory t suf} \<and> distinct found)"
  "(\<forall>found. walkEntries rel es = Inr found \<longrightarrow> distinct (map fst es) \<longrightarrow> wf_entries es \<longrightarrow>
      set found = {rel @ n # suf | n suf. \<exists>c. map_of es n = Some c \<and> contains_git_directory c suf}
      \<and> distinct found)"
proof (induction rel t and rel es rule: walkDir_walkEntries.induct)
  case (1 rel)
  show ?case by simp
next
  case (2 rel)
  show ?case by simp
next
  case (3 rel es)
  show ?case
  proof (intro allI impI)
    fix found
    assume w: "walkDir rel (Dir es) = Inr found" and wf: "wf_tree (Dir es)"
    from w obtain below where b: "walkEntries rel es = Inr below"
      and f: "found = (if rel \<noteq> [] \<and> isGitRepository (Dir es) then [rel] else []) @ below"
      by (auto split: sum.splits)
    from 3 b wf have sb: "set below = {rel @ n # suf | n suf. \<exists>c. map_of es n = Some c \<and> contains_git_directory c suf}"
      and db: "distinct below" by auto
    have split: "{rel @ suf | suf. rel @ suf \<noteq> [] \<and> contains_git_directory (Dir es) suf} =
        (if rel \<noteq> [] \<and> isGitRepository (Dir es) then {rel} else {}) \<union>
        {rel @ n # suf | n suf. \<exists>c. map_of es n = Some c \<and> contains_git_directory c suf}"
      (is "?L = ?R")
    proof (rule set_eqI)
      fix x
      show "x \<in> ?L \<longleftrightarrow> x \<in> ?R"
      proof
        assume "x \<in> ?L"
        then obtain suf where x: "x = rel @ suf" "rel @ suf \<noteq> []" "contains_git_directory (Dir es) suf" by blast
        show "x \<in> ?R"
        proof (cases suf)
          case Nil
          with x show ?thesis by (simp add: cgd_Dir_Nil)
        next
          case (Cons n s)
          with x show ?thesis by (auto simp: cgd_Dir_Cons split: option.splits)
        qed
      next
        assume "x \<in> ?R"
        then consider "x = rel" "rel \<noteq> []" "isGitRepository (Dir es)"
          | n suf c where "x = rel @ n # suf" "map_of es n = Some c" "contains_git_directory c suf"
          by (auto split: if_splits)
        then show "x \<in> ?L"
        proof cases
          case 1
          then have "x = rel @ [] \<and> rel @ [] \<noteq> [] \<and> contains_git_directory (Dir es) []"
            by (simp add: cgd_Dir_Nil)
          then show ?thesis by blast
        next
          case 2
          then have "x = rel @ (n # suf) \<and> rel @ (n # suf) \<noteq> [] \<and> contains_git_directory (Dir es) (n # suf)"
            by (simp add: cgd_Dir_Cons)
          then show ?thesis by blast
        qed
      qed
    qed
    have "rel \<notin> set below" using sb by auto
    with db f sb split
    show "set found = {rel @ suf | suf. rel @ suf \<noteq> [] \<and> contains_git_directory (Dir es) suf} \<and> distinct found"
      by auto
  qed
next
  case (4 rel)
  show ?case by simp
next
  case (5 rel n t es)
  show ?case
  proof (intro allI impI)
    fix found
    assume w: "walkEntries rel ((n, t) # es) = Inr found"
      and d: "distinct (map fst ((n, t) # es))" and wf: "wf_entries ((n, t) # es)"
    from w obtain a b where a: "walkDir (rel @ [n]) t = Inr a" and b: "walkEntries rel es = Inr b"
      and f: "found = a @ b" by (auto split: sum.splits)
    from 5(1) a wf have sa: "set a = {(rel @ [n]) @ suf | suf. (rel @ [n]) @ suf \<noteq> [] \<and> contains_git_directory t suf}"
      and da: "distinct a" by auto
    from 5(2)[OF a] b d wf have sb: "set b = {rel @ m # suf | m suf. \<exists>c. map_of es m = Some c \<and> contains_git_directory c suf}"
      and db: "distinct b" by auto
    from d have nn: "map_of es n = None" by (simp add: map_of_eq_None_iff)
    have disj: "set a \<inter> set b = {}"
    proof -
      { fix x assume "x \<in> set a" "x \<in> set b"
        then obtain s1 m s2 c where "x = rel @ n # s1" "x = rel @ m # s2" "map_of es m = Some c"
          using sa sb by auto
        with nn have False by auto }
      then show ?thesis by blast
    qed
    have "set a \<union> set b = {rel @ m # suf | m suf. \<exists>c. map_of ((n, t) # es) m = Some c \<and> contains_git_directory c suf}"
    proof -
      have ne: "m \<noteq> n" if "map_of es m = Some c" for m c using that nn by auto
      have eq: "(\<exists>c. map_of ((n, t) # es) m = Some c \<and> contains_git_directory c suf) \<longleftrightarrow>
                (m = n \<and> contains_git_directory t suf) \<or>
                (\<exists>c. map_of es m = Some c \<and> contains_git_directory c suf)" for m suf
        using ne by auto
      show ?thesis unfolding eq using sa sb by auto
    qed
    with f da db disj
    show "set found = {rel @ m # suf | m suf. \<exists>c. map_of ((n, t) # es) m = Some c \<and> contains_git_directory c suf}
       \<and> distinct found" by simp
  qed
qed


lemma sliceContainsNamedRepo_matches_kept:
  "sliceContainsNamedRepo kept rel = matches_kept kept rel"
proof -
  have "containsNormalized kept needle = (needle \<in> set (map (\<lambda>r. normalizePath (Path r)) kept))"
    for needle
    by (induction kept) auto
  then show ?thesis
    by (simp add: sliceContainsNamedRepo_def matches_kept_def normalizePath_def
          TrimPrefix_def HasPrefix_def ReplaceAll_byte_def ToSlash_def)
qed


lemma prune_step_no_confirm_count:
  assumes "pruneNoConfirm env" "userAgreesToDelete st" "prune_step env kept r st = (None, st')"
  shows "userAgreesToDelete st' \<and>
         count st' = count st + (if sliceContainsNamedRepo kept r then 0 else 1) \<and>
         removed st' = removed st @
           (if sliceContainsNamedRepo kept r then [] else [Join (outputDirAbsolutePath env) r])"
  using assms
  by (auto simp: prune_step_def prune_delete_def Let_def split: if_splits)

lemma prune_loop_no_confirm_count:
  assumes "pruneNoConfirm env" "userAgreesToDelete st" "prune_loop env kept rs st = (None, st')"
  shows "count st' = count st + length (filter (\<lambda>r. \<not> sliceContainsNamedRepo kept r) rs) \<and>
         removed st' = removed st @
           map (Join (outputDirAbsolutePath env)) (filter (\<lambda>r. \<not> sliceContainsNamedRepo kept r) rs)"
  using assms(2,3)
proof (induction rs arbitrary: st)
  case Nil
  then show ?case by simp
next
  case (Cons r rs)
  obtain h1 st1 where step: "prune_step env kept r st = (h1, st1)"
    by (cases "prune_step env kept r st")
  with Cons.prems(2) have h1: "h1 = None" and rest: "prune_loop env kept rs st1 = (None, st')"
    by (auto split: option.splits)
  from prune_step_no_confirm_count[OF assms(1) Cons.prems(1) step[unfolded h1]]
  have ag: "userAgreesToDelete st1"
    and c1: "count st1 = count st + (if sliceContainsNamedRepo kept r then 0 else 1)"
    and r1: "removed st1 = removed st @
           (if sliceContainsNamedRepo kept r then [] else [Join (outputDirAbsolutePath env) r])"
    by auto
  from Cons.IH[OF ag rest] c1 r1 show ?case by simp
qed

text \<open>
  C4, as the code has it. On a clone tree whose directories list each name once, a run of
  \<^verbatim>\<open>pruneRepos\<close> without confirmation prompts that returns has counted exactly the prune
  candidates: the directories below the root that contain a \<^verbatim>\<open>.git\<close> directory and whose
  relative path, normalised, equals no kept repository's normalised \<open>Path\<close>. The walk lists
  each directory with a \<^verbatim>\<open>.git\<close> directory once, and the paths deleted are the candidates'.
\<close>

theorem pruneRepos_count_is_number_of_candidates:
  assumes wf: "wf_tree tree"
    and noconfirm: "pruneNoConfirm env"
    and run: "pruneRepos env kept tree input = (None, st)"
  shows "count st = card {rel. prune_candidate tree kept rel} \<and>
         (\<exists>found. walkDir [] tree = Inr found \<and> distinct found \<and>
            set found = {rel. rel \<noteq> [] \<and> contains_git_directory tree rel} \<and>
            removed st = map (\<lambda>rel. Join (outputDirAbsolutePath env) (Join_sep ''/'' rel))
                           (filter (prune_candidate tree kept) found))"
proof -
  from run obtain found where walk: "walkDir [] tree = Inr found"
    and loop: "prune_loop env kept (map (Join_sep ''/'') found)
                 \<lparr>userAgreesToDelete = True, count = 0, removed = [], stdin = input\<rparr> = (None, st)"
    by (auto simp: pruneRepos_def getRelativePathRepositories_def split: sum.splits)
  from walk_sound(1)[of "[]" tree] walk wf
  have sf: "set found = {rel. rel \<noteq> [] \<and> contains_git_directory tree rel}"
    and df: "distinct found" by auto
  have cand: "prune_candidate tree kept rel \<longleftrightarrow>
              rel \<in> set found \<and> \<not> sliceContainsNamedRepo kept (Join_sep ''/'' rel)" for rel
    by (auto simp: prune_candidate_def sf sliceContainsNamedRepo_matches_kept)
  have fm: "filter (\<lambda>r. \<not> sliceContainsNamedRepo kept r) (map (Join_sep ''/'') found) =
            map (Join_sep ''/'') (filter (prune_candidate tree kept) found)"
    by (simp add: filter_map o_def cand cong: filter_cong)
  from prune_loop_no_confirm_count[OF noconfirm _ loop]
  have cnt: "count st = length (filter (prune_candidate tree kept) found)"
    and rem: "removed st = map (Join (outputDirAbsolutePath env))
                (map (Join_sep ''/'') (filter (prune_candidate tree kept) found))"
    by (simp_all add: fm)
  have "distinct (filter (prune_candidate tree kept) found)" using df by simp
  then have "length (filter (prune_candidate tree kept) found) =
             card (set (filter (prune_candidate tree kept) found))"
    by (simp only: distinct_card)
  also have "set (filter (prune_candidate tree kept) found) = {rel. prune_candidate tree kept rel}"
    using cand by auto
  finally have c: "count st = card {rel. prune_candidate tree kept rel}" using cnt by simp
  from rem have "removed st = map (\<lambda>rel. Join (outputDirAbsolutePath env) (Join_sep ''/'' rel))
                           (filter (prune_candidate tree kept) found)" by (simp add: o_def)
  with c walk df sf show ?thesis by blast
qed

theorem pruneRepos_count_is_number_of_candidates_witness:
  "wf_tree example_tree \<and> pruneNoConfirm (example_env True) \<and>
   pruneRepos (example_env True) [example_repo ''a'' ''/a''] example_tree [] =
     (None, \<lparr>userAgreesToDelete = True, count = 2, removed = [''/r/b'', ''/r/c''], stdin = []\<rparr>) \<and>
   card {rel. prune_candidate example_tree [example_repo ''a'' ''/a''] rel} = 2"
proof -
  have wf: "wf_tree example_tree" by (simp add: example_tree_def)
  have nc: "pruneNoConfirm (example_env True)" by (simp add: example_env_def)
  note run = example_prune_no_confirm
  from pruneRepos_count_is_number_of_candidates [OF wf nc run]
  have "card {rel. prune_candidate example_tree [example_repo ''a'' ''/a''] rel} = 2" by simp
  with wf nc run show ?thesis by simp
qed

text \<open>
  C4, as the claim has it, counts a directory with a \<^verbatim>\<open>.git\<close> file as a candidate. In the
  tree below \<^verbatim>\<open>sub\<close> has a \<^verbatim>\<open>.git\<close> file and nothing is kept on the remote: \<^verbatim>\<open>sub\<close> is a
  candidate in the claim's sense, yet the walk does not list it and a run without
  confirmation prompts returns the count 0 and deletes nothing.
\<close>

theorem prune_candidate_git_file_counterexample:
  "prune_candidate_dir_or_file example_tree_git_file [] [''sub''] \<and>
   getRelativePathRepositories example_tree_git_file = Inr [] \<and>
   pruneRepos (example_env True) [] example_tree_git_file [] =
     (None, \<lparr>userAgreesToDelete = True, count = 0, removed = [], stdin = []\<rparr>)"
  by (simp add: prune_candidate_dir_or_file_def contains_git_child_def matches_kept_def
        pruneRepos_def getRelativePathRepositories_def example_tree_git_file_def
        isGitRepository_def)

section \<open>Exit codes\<close>

lemma Atoi_zero: "Atoi ''0'' = Inr 0"
  by (simp add: Atoi_def digit_value_def)

lemma example_Atoi: "Atoi ''2'' = Inr 2" "Atoi ''1'' = Inr 1" "Atoi ''256'' = Inr 256"
  by (simp_all add: Atoi_def digit_value_def)

text \<open>
  With the exit code for infos set to 256 and one info event the run calls
  \<^verbatim>\<open>os.Exit(256)\<close>, and the status of the process is 0.
\<close>

lemma example_exit_256:
  "clone_run_exit example_getenv_256 1 0 = Some (Exit 256)"
  "process_exit_code (clone_run_exit example_getenv_256 1 0) = 0"
  by (simp_all add: clone_run_exit_def exit_with_code_of_def process_exit_code_def
        example_getenv_256_def example_Atoi)

text \<open>
  C9, as the code has it. Outside test mode and with both configured values decimal
  integers, the exit status is the low eight bits of a configured value, hence the value
  itself when that lies between 0 and 255: when an info event was recorded and the
  configured value for infos is not the string \<^verbatim>\<open>0\<close>, it is that of the value for infos,
  whether or not errors were recorded; otherwise, when an error event was recorded, it is
  that of the value for issues; otherwise the run ends with status 0. So with info events
  only the exit status is given by the value for infos, and with error events by the value
  for issues provided no info event was recorded or the value for infos is \<^verbatim>\<open>0\<close>.
\<close>

theorem clone_run_exit_code:
  assumes "getenv ''GHORG_DONT_EXIT_UNDER_TEST'' \<noteq> ''true''"
    and "Atoi (getenv ''GHORG_EXIT_CODE_ON_CLONE_INFOS'') = Inr infosCode"
    and "Atoi (getenv ''GHORG_EXIT_CODE_ON_CLONE_ISSUES'') = Inr issuesCode"
  shows "process_exit_code (clone_run_exit getenv cloneInfosCount cloneErrorsCount) =
           (if 0 < cloneInfosCount \<and> getenv ''GHORG_EXIT_CODE_ON_CLONE_INFOS'' \<noteq> ''0''
            then infosCode mod 256
            else if 0 < cloneErrorsCount then issuesCode mod 256 else 0)
         \<and> (0 < cloneInfosCount \<and> cloneErrorsCount = 0 \<longrightarrow>
              process_exit_code (clone_run_exit getenv cloneInfosCount cloneErrorsCount) =
                infosCode mod 256)
         \<and> (0 < cloneInfosCount \<and> cloneErrorsCount = 0 \<and> 0 \<le> infosCode \<and> infosCode < 256 \<longrightarrow>
              process_exit_code (clone_run_exit getenv cloneInfosCount cloneErrorsCount) = infosCode)
         \<and> (0 < cloneErrorsCount \<and>
              (cloneInfosCount = 0 \<or> getenv ''GHORG_EXIT_CODE_ON_CLONE_INFOS'' = ''0'') \<longrightarrow>
              process_exit_code (clone_run_exit getenv cloneInfosCount cloneErrorsCount) =
                issuesCode mod 256)
         \<and> (0 < cloneErrorsCount \<and>
              (cloneInfosCount = 0 \<or> getenv ''GHORG_EXIT_CODE_ON_CLONE_INFOS'' = ''0'') \<and>
              0 \<le> issuesCode \<and> issuesCode < 256 \<longrightarrow>
              process_exit_code (clone_run_exit getenv cloneInfosCount cloneErrorsCount) = issuesCode)"
proof -
  have zero: "infosCode = 0" if "getenv ''GHORG_EXIT_CODE_ON_CLONE_INFOS'' = ''0''"
    using that assms(2) by (simp add: Atoi_zero)
  have main: "process_exit_code (clone_run_exit getenv cloneInfosCount cloneErrorsCount) =
           (if 0 < cloneInfosCount \<and> getenv ''GHORG_EXIT_CODE_ON_CLONE_INFOS'' \<noteq> ''0''
            then infosCode mod 256
            else if 0 < cloneErrorsCount then issuesCode mod 256 else 0)"
    using assms by (simp add: clone_run_exit_def exit_with_code_of_def process_exit_code_def)
  show ?thesis
    unfolding main using zero by auto
qed

theorem clone_run_exit_code_witness:
  "example_getenv ''GHORG_DONT_EXIT_UNDER_TEST'' \<noteq> ''true'' \<and>
   Atoi (example_getenv ''GHORG_EXIT_CODE_ON_CLONE_INFOS'') = Inr 2 \<and>
   Atoi (example_getenv ''GHORG_EXIT_CODE_ON_CLONE_ISSUES'') = Inr 1 \<and>
   process_exit_code (clone_run_exit example_getenv 3 0) = 2 \<and>
   process_exit_code (clone_run_exit example_getenv 0 4) = 1"
proof -
  have a: "example_getenv ''GHORG_DONT_EXIT_UNDER_TEST'' \<noteq> ''true''"
    by (simp add: example_getenv_def)
  have b: "Atoi (example_getenv ''GHORG_EXIT_CODE_ON_CLONE_INFOS'') = Inr 2"
    by (simp add: example_getenv_def example_Atoi)
  have c: "Atoi (example_getenv ''GHORG_EXIT_CODE_ON_CLONE_ISSUES'') = Inr 1"
    by (simp add: example_getenv_def example_Atoi)
  from clone_run_exit_code [OF a b c, of 3 0]
  have d: "process_exit_code (clone_run_exit example_getenv 3 0) = 2" by simp
  from clone_run_exit_code [OF a b c, of 0 4]
  have e: "process_exit_code (clone_run_exit example_getenv 0 4) = 1" by simp
  from a b c d e show ?thesis by simp
qed

text \<open>
  C9, as the claim has it, promises the exit code for issues whenever an error event was
  recorded. With the code for infos set to 2, that for issues to 1, one info event and one
  error event, the run exits with 2: the test on the info events comes first and exits.
\<close>

theorem clone_run_exit_code_counterexample:
  "example_getenv ''GHORG_EXIT_CODE_ON_CLONE_ISSUES'' = ''1'' \<and>
   clone_run_exit example_getenv 1 1 = Some (Exit 2) \<and>
   process_exit_code (clone_run_exit example_getenv 1 1) \<noteq> 1"
  by (simp add: clone_run_exit_def exit_with_code_of_def process_exit_code_def
        example_getenv_def example_Atoi)

section \<open>The stats file is rotated, never rewritten\<close>

lemma takeWhile_no_slash:
  "CHR ''/'' \<notin> set n \<Longrightarrow> takeWhile (\<lambda>c. c \<noteq> CHR ''/'') (rev n) = rev n"
  by (rule takeWhile_eq_all_conv[THEN iffD2]) auto

lemma base_name_append: "CHR ''/'' \<notin> set n \<Longrightarrow> base_name (x @ CHR ''/'' # n) = n"
  by (simp add: base_name_def takeWhile_tail takeWhile_no_slash)

lemma base_name_plain: "CHR ''/'' \<notin> set n \<Longrightarrow> base_name n = n"
  by (simp add: base_name_def takeWhile_no_slash)

lemma Split_byte_nonempty: "Split_byte c s \<noteq> []"
  by (induction s) (auto split: list.splits)

lemma Split_byte_no_sep: "c \<notin> set n \<Longrightarrow> Split_byte c n = [n]"
  by (induction n) auto

lemma Split_byte_append: "Split_byte c (a @ c # n) = Split_byte c a @ Split_byte c n"
proof (induction a)
  case Nil
  show ?case by simp
next
  case (Cons x xs)
  obtain y ys where "Split_byte c xs = y # ys"
    using Split_byte_nonempty[of c xs] by (cases "Split_byte c xs") auto
  with Cons show ?case by simp
qed

lemma clean_elems_snoc:
  assumes "n \<noteq> []" "n \<noteq> ''.''" "n \<noteq> ''..''"
  shows "\<exists>kept. clean_elems rooted out (es @ [n]) = kept @ [n]"
proof (induction es arbitrary: out)
  case Nil
  from assms show ?case by simp
next
  case (Cons e es)
  show ?case using Cons.IH by (auto split: list.splits)
qed

lemma Join_sep_snoc:
  "Join_sep sep (xs @ [n]) = (if xs = [] then n else Join_sep sep xs @ sep @ n)"
  by (induction sep xs rule: Join_sep.induct) auto

lemma base_name_Clean:
  assumes "CHR ''/'' \<notin> set n" "n \<noteq> []" "n \<noteq> ''.''" "n \<noteq> ''..''"
    and "Split_byte (CHR ''/'') p = es @ [n]"
  shows "base_name (Clean p) = n"
proof -
  from assms(5) have pne: "p \<noteq> []" using assms(2) by (cases p) auto
  have body: "Join_sep ''/'' (clean_elems r [] (es @ [n])) \<noteq> [] \<and>
              base_name (Join_sep ''/'' (clean_elems r [] (es @ [n]))) = n \<and>
              base_name (CHR ''/'' # Join_sep ''/'' (clean_elems r [] (es @ [n]))) = n" for r
  proof -
    obtain kept where k: "clean_elems r [] (es @ [n]) = kept @ [n]"
      using clean_elems_snoc[OF assms(2-4)] by blast
    show ?thesis
    proof (cases "kept = []")
      case True
      then show ?thesis
        using assms(1,2) base_name_append[OF assms(1), of "[]"]
        by (simp add: k base_name_plain)
    next
      case False
      then show ?thesis
        using assms(1) base_name_append[OF assms(1), of "CHR ''/'' # Join_sep ''/'' kept"]
        by (simp add: k Join_sep_snoc base_name_append)
    qed
  qed
  show ?thesis
    using pne body[of True] body[of False] by (simp add: Clean_def Let_def assms(5))
qed

lemma base_name_Join:
  assumes "CHR ''/'' \<notin> set n" "n \<noteq> []" "n \<noteq> ''.''" "n \<noteq> ''..''"
  shows "base_name (Join a n) = n"
proof (cases "a = []")
  case True
  have "Split_byte (CHR ''/'') n = [] @ [n]" using assms(1) by (simp add: Split_byte_no_sep)
  from base_name_Clean[OF assms this] True assms(2) show ?thesis by (simp add: Join_def)
next
  case False
  have "Split_byte (CHR ''/'') (a @ CHR ''/'' # n) = Split_byte (CHR ''/'') a @ [n]"
    using assms(1) by (simp add: Split_byte_append Split_byte_no_sep)
  from base_name_Clean[OF assms this] False assms(2) show ?thesis by (simp add: Join_def)
qed

lemma hex_digit_no_slash: "hex_digit k \<noteq> CHR ''/''"
proof -
  have "hex_digit k \<in> set ''0123456789abcdef''"
    unfolding hex_digit_def by (rule nth_mem) simp
  then show ?thesis by auto
qed

lemma hex_bytes_no_slash: "CHR ''/'' \<notin> set (hex_bytes bs)"
  by (induction bs) (simp_all add: hex_bytes_def hex_digit_no_slash[THEN not_sym])

lemma side_file_is_not_stats_file: "newHeaderFilePath env \<noteq> getGhorgStatsFilePath env"
proof
  assume eq: "newHeaderFilePath env = getGhorgStatsFilePath env"
  let ?side = "''ghorg_stats_new_header_'' @ hex_bytes (Sum256 env stats_header) @ ''.csv''"
  have "base_name (newHeaderFilePath env) = ?side"
    unfolding newHeaderFilePath_def Let_def
    by (rule base_name_Join) (simp_all add: hex_bytes_no_slash)
  moreover have "base_name (getGhorgStatsFilePath env) = ''_ghorg_stats.csv''"
    unfolding getGhorgStatsFilePath_def Let_def
    by (simp add: base_name_Join)
  ultimately show False using eq by simp
qed


lemma example_stats_paths:
  "getGhorgStatsFilePath example_stats_env = ''/clones/_ghorg_stats.csv''"
  "newHeaderFilePath example_stats_env = ''/clones/ghorg_stats_new_header_ab01.csv''"
  by (simp_all add: getGhorgStatsFilePath_def newHeaderFilePath_def example_stats_env_def
        Join_def Clean_def hex_bytes_def hex_digit_def)

lemma example_first_line:
  "readFirstLine example_files ''/clones/_ghorg_stats.csv'' = Inr ''datetime,clonePath,scm''"
  by (simp add: readFirstLine_def example_files_def example_old_stats_def dropCR_def)

text \<open>
  C10. Let the stats file exist and let its first line be readable. When the first line
  (with a line feed) differs from the current header and the side file can be opened, the
  call succeeds, the header and then the row are appended to the side file, whose name is
  \<^verbatim>\<open>ghorg_stats_new_header_\<close>, the hexadecimal SHA-256 digest of the header and \<^verbatim>\<open>.csv\<close>
  (so a side file that did not exist holds exactly header and row), and every other file,
  the stats file among them, keeps its contents. When the first line matches and the
  stats file can be opened, the row is appended to the stats file.
\<close>

theorem writeGhorgStats_header_drift:
  assumes exists: "fs (getGhorgStatsFilePath env) = Some old"
    and first: "readFirstLine fs (getGhorgStatsFilePath env) = Inr existingHeader"
  shows "(existingHeader @ [CHR 0x0A] \<noteq> stats_header \<and>
            \<not> openFileFails env (newHeaderFilePath env) \<longrightarrow>
          (\<exists>fs'. writeGhorgStats env fs data = (None, fs') \<and>
             fs' (getGhorgStatsFilePath env) = Some old \<and>
             fs' (newHeaderFilePath env) =
               Some ((case fs (newHeaderFilePath env) of None \<Rightarrow> [] | Some c \<Rightarrow> c)
                     @ stats_header @ data) \<and>
             (\<forall>p. p \<noteq> newHeaderFilePath env \<longrightarrow> fs' p = fs p) \<and>
             base_name (newHeaderFilePath env) =
               ''ghorg_stats_new_header_'' @ hex_bytes (Sum256 env stats_header) @ ''.csv''))
         \<and> (existingHeader @ [CHR 0x0A] = stats_header \<and>
              \<not> openFileFails env (getGhorgStatsFilePath env) \<longrightarrow>
              writeGhorgStats env fs data =
                (None, fs(getGhorgStatsFilePath env \<mapsto> old @ data)))"
proof (intro conjI impI)
  assume a: "existingHeader @ [CHR 0x0A] \<noteq> stats_header \<and>
             \<not> openFileFails env (newHeaderFilePath env)"
  let ?side = "newHeaderFilePath env"
  let ?fs' = "append_file (append_file fs ?side stats_header) ?side data"
  have run: "writeGhorgStats env fs data = (None, ?fs')"
    using exists first a by (simp add: writeGhorgStats_def Let_def)
  have ne: "?side \<noteq> getGhorgStatsFilePath env" by (rule side_file_is_not_stats_file)
  have old: "?fs' (getGhorgStatsFilePath env) = Some old"
    using ne exists by (simp add: append_file_def)
  have new: "?fs' ?side = Some ((case fs ?side of None \<Rightarrow> [] | Some c \<Rightarrow> c) @ stats_header @ data)"
    by (simp add: append_file_def)
  have frame: "\<forall>p. p \<noteq> ?side \<longrightarrow> ?fs' p = fs p"
    by (simp add: append_file_def)
  have name: "base_name ?side =
               ''ghorg_stats_new_header_'' @ hex_bytes (Sum256 env stats_header) @ ''.csv''"
    unfolding newHeaderFilePath_def Let_def
    by (rule base_name_Join) (simp_all add: hex_bytes_no_slash)
  from run old new frame name
  show "\<exists>fs'. writeGhorgStats env fs data = (None, fs') \<and>
             fs' (getGhorgStatsFilePath env) = Some old \<and>
             fs' (newHeaderFilePath env) =
               Some ((case fs (newHeaderFilePath env) of None \<Rightarrow> [] | Some c \<Rightarrow> c)
                     @ stats_header @ data) \<and>
             (\<forall>p. p \<noteq> newHeaderFilePath env \<longrightarrow> fs' p = fs p) \<and>
             base_name (newHeaderFilePath env) =
               ''ghorg_stats_new_header_'' @ hex_bytes (Sum256 env stats_header) @ ''.csv''"
    by blast
next
  assume "existingHeader @ [CHR 0x0A] = stats_header \<and>
          \<not> openFileFails env (getGhorgStatsFilePath env)"
  then show "writeGhorgStats env fs data =
                (None, fs(getGhorgStatsFilePath env \<mapsto> old @ data))"
    using exists first by (simp add: writeGhorgStats_def Let_def append_file_def)
qed

theorem writeGhorgStats_header_drift_witness:
  "example_files ''/clones/_ghorg_stats.csv'' = Some example_old_stats \<and>
   readFirstLine example_files ''/clones/_ghorg_stats.csv'' = Inr ''datetime,clonePath,scm'' \<and>
   ''datetime,clonePath,scm'' @ [CHR 0x0A] \<noteq> stats_header \<and>
   fst (writeGhorgStats example_stats_env example_files example_row) = None \<and>
   snd (writeGhorgStats example_stats_env example_files example_row)
       ''/clones/_ghorg_stats.csv'' = Some example_old_stats \<and>
   snd (writeGhorgStats example_stats_env example_files example_row)
       ''/clones/ghorg_stats_new_header_ab01.csv'' = Some (stats_header @ example_row)"
proof -
  have ex: "example_files (getGhorgStatsFilePath example_stats_env) = Some example_old_stats"
    by (simp add: example_stats_paths example_files_def)
  have fl: "readFirstLine example_files (getGhorgStatsFilePath example_stats_env) =
              Inr ''datetime,clonePath,scm''"
    by (simp add: example_stats_paths example_first_line)
  have diff: "''datetime,clonePath,scm'' @ [CHR 0x0A] \<noteq> stats_header"
    by (simp add: stats_header_def)
  have op: "\<not> openFileFails example_stats_env (newHeaderFilePath example_stats_env)"
    by (simp add: example_stats_env_def)
  have none: "example_files ''/clones/ghorg_stats_new_header_ab01.csv'' = None"
    by (simp add: example_files_def)
  from writeGhorgStats_header_drift [OF ex fl, of example_row] diff op
  obtain fs' where
    "writeGhorgStats example_stats_env example_files example_row = (None, fs')"
    "fs' ''/clones/_ghorg_stats.csv'' = Some example_old_stats"
    "fs' ''/clones/ghorg_stats_new_header_ab01.csv'' = Some (stats_header @ example_row)"
    by (auto simp: example_stats_paths none)
  with diff show ?thesis
    using ex fl by (simp add: example_stats_paths)
qed

section \<open>Synchronising the default branch\<close>

lemma branch_ref_eq [simp]: "branch_ref a = branch_ref b \<longleftrightarrow> a = b"
  by (simp add: branch_ref_def)

lemma branch_ref_not_remote [simp]:
  "branch_ref a \<noteq> remote_ref b" "remote_ref b \<noteq> branch_ref a"
  by (simp_all add: branch_ref_def remote_ref_def)




lemma sync_other_branch:
  assumes ops: "FetchCloneBranch g = git_FetchCloneBranch" "UpdateRef g = git_UpdateRef"
      "GetRefHash g = git_GetRefHash"
    and other: "cur \<noteq> d"
    and run: "sync_fetch_and_update g repo cur d s = ((w, None), s', calls)"
  shows "\<exists>h. remote_heads s d = Some h \<and>
           s' = s\<lparr>refs := (refs s)(remote_ref d \<mapsto> h, branch_ref d \<mapsto> h)\<rparr> \<and>
           calls = [CallFetchCloneBranch d, CallUpdateRef (branch_ref d) (remote_ref d)] \<and>
           w = ((case refs s (branch_ref d) of None \<Rightarrow> [] | Some before \<Rightarrow> before) \<noteq> h)"
proof -
  from run other ops obtain h where h: "remote_heads s d = Some h"
    by (auto simp: sync_fetch_and_update_def Let_def git_FetchCloneBranch_def
             split: prod.splits option.splits if_splits)
  let ?s1 = "s\<lparr>refs := (refs s)(remote_ref d \<mapsto> h)\<rparr>"
  have f: "git_FetchCloneBranch (repo\<lparr>CloneBranch := d\<rparr>) s = (None, ?s1)"
    using run other ops h
    by (auto simp: sync_fetch_and_update_def Let_def git_FetchCloneBranch_def
             split: prod.splits option.splits if_splits)
  let ?s2 = "s\<lparr>refs := (refs s)(remote_ref d \<mapsto> h, branch_ref d \<mapsto> h)\<rparr>"
  have u: "git_UpdateRef repo (branch_ref d) (remote_ref d) ?s1 = (None, ?s2)"
    by (simp add: git_UpdateRef_def)
  have c: "sync_compare_hashes g repo (branch_ref d) bh ?s2 cs = ((bh \<noteq> h, None), ?s2, cs)"
    for bh cs
    by (simp add: sync_compare_hashes_def ops git_GetRefHash_def)
  have "sync_fetch_and_update g repo cur d s =
          (((case git_GetRefHash s repo (branch_ref d) of Inl err \<Rightarrow> [] | Inr x \<Rightarrow> x) \<noteq> h, None),
           ?s2, [CallFetchCloneBranch d, CallUpdateRef (branch_ref d) (remote_ref d)])"
    using other by (simp add: sync_fetch_and_update_def Let_def ops f u c)
  with run h show ?thesis
    by (auto simp: git_GetRefHash_def split: option.splits)
qed


lemma gitter_of_ops [simp]:
  "FetchCloneBranch (gitter_of b) = git_FetchCloneBranch"
  "UpdateRef (gitter_of b) = git_UpdateRef"
  "GetRefHash (gitter_of b) = git_GetRefHash"
  "GetRemoteURL (gitter_of b) = git_GetRemoteURL"
  "HasLocalChanges (gitter_of b) = git_HasLocalChanges"
  by (cases b; simp add: gitter_of_def goGit_def execGit_def)+

lemma SyncDefaultBranch_proceeds:
  assumes run: "SyncDefaultBranch b en repo s = (r, s', calls)" and "calls \<noteq> []"
    and cur: "GetCurrentBranch (gitter_of b) s repo = Inr cur"
    and dflt: "detectDefaultBranch (gitter_of b) repo s = Inr d"
  shows "sync_fetch_and_update (gitter_of b) repo cur d s = (r, s', calls)"
  using assms
  by (cases b)
     (auto simp: SyncDefaultBranch_def SyncDefaultBranch_exec_def SyncDefaultBranch_gogit_def
        gitter_of_def split: sum.splits if_splits)

lemma current_branch_of_HEAD:
  assumes "GetCurrentBranch (gitter_of b) s repo = Inr cur" "HEAD s = OnBranch c"
  shows "c = cur"
  using assms
  by (cases b)
     (auto simp: gitter_of_def goGit_def execGit_def exec_GetCurrentBranch_def
        gogit_GetCurrentBranch_def split: if_splits)

text \<open>
  What a run does on a current branch other than the branch it works with as the default
  branch (the result of \<^verbatim>\<open>GetRemoteDefaultBranch\<close>, or \<^verbatim>\<open>repo.CloneBranch\<close>): in either
  backend, when it is not skipped and returns no error, its only state-changing calls are
  the fetch of that branch and one ref update; afterwards the branch holds the commit of
  its remote-tracking ref, which is the remote's; every other ref, in particular the
  current branch's, is unchanged, and so are \<^verbatim>\<open>HEAD\<close>, the commit it resolves to, the
  checked-out tree and the status of the working tree.
\<close>

lemma sync_on_other_branch_of_detected_default:
  assumes run: "SyncDefaultBranch b syncEnabled repo s = ((wasUpdated, None), s', calls)"
    and proceeds: "calls \<noteq> []"
    and cur: "GetCurrentBranch (gitter_of b) s repo = Inr currentBranch"
    and dflt: "detectDefaultBranch (gitter_of b) repo s = Inr defaultBranch"
    and other: "currentBranch \<noteq> defaultBranch"
  shows "calls = [CallFetchCloneBranch defaultBranch,
                  CallUpdateRef (branch_ref defaultBranch) (remote_ref defaultBranch)] \<and>
         refs s' (branch_ref defaultBranch) = refs s' (remote_ref defaultBranch) \<and>
         refs s' (remote_ref defaultBranch) = remote_heads s defaultBranch \<and>
         remote_heads s defaultBranch \<noteq> None \<and>
         (\<forall>r. r \<noteq> branch_ref defaultBranch \<and> r \<noteq> remote_ref defaultBranch \<longrightarrow> refs s' r = refs s r) \<and>
         refs s' (branch_ref currentBranch) = refs s (branch_ref currentBranch) \<and>
         HEAD s' = HEAD s \<and> head_commit s' = head_commit s \<and>
         checked_out s' = checked_out s \<and> status s' = status s"
proof -
  from SyncDefaultBranch_proceeds[OF run proceeds cur dflt]
  have "sync_fetch_and_update (gitter_of b) repo currentBranch defaultBranch s =
          ((wasUpdated, None), s', calls)" .
  from sync_other_branch[OF _ _ _ other this]
  obtain h where h: "remote_heads s defaultBranch = Some h"
    and s': "s' = s\<lparr>refs := (refs s)(remote_ref defaultBranch \<mapsto> h, branch_ref defaultBranch \<mapsto> h)\<rparr>"
    and c: "calls = [CallFetchCloneBranch defaultBranch,
                     CallUpdateRef (branch_ref defaultBranch) (remote_ref defaultBranch)]"
    by auto
  have hc: "head_commit s' = head_commit s"
  proof (cases "HEAD s")
    case (OnBranch c)
    with current_branch_of_HEAD[OF cur OnBranch] other show ?thesis
      by (simp add: head_commit_def s')
  next
    case (Detached x)
    then show ?thesis by (simp add: head_commit_def s')
  qed
  from h c hc other show ?thesis by (simp add: s')
qed

text \<open>
  The runs of both backends on the clean clone checked out on \<^verbatim>\<open>feature\<close>, whose remote
  default branch \<^verbatim>\<open>main\<close> has advanced from \<^verbatim>\<open>a1\<close> to \<^verbatim>\<open>b2\<close>.
\<close>

lemma example_sync_on_feature_library:
  "fst (SyncDefaultBranch Library ''true'' (example_repo ''app'' ''group/app'') clone_on_feature) =
     (True, None)"
  "snd (snd (SyncDefaultBranch Library ''true'' (example_repo ''app'' ''group/app'') clone_on_feature)) =
     [CallFetchCloneBranch ''main'', CallUpdateRef ''refs/heads/main'' ''refs/remotes/origin/main'']"
  "refs (fst (snd (SyncDefaultBranch Library ''true'' (example_repo ''app'' ''group/app'')
     clone_on_feature))) ''refs/heads/main'' = Some ''b2''"
  "HEAD (fst (snd (SyncDefaultBranch Library ''true'' (example_repo ''app'' ''group/app'')
     clone_on_feature))) = OnBranch ''feature''"
  by code_simp+

lemma example_sync_on_feature_subprocess:
  "fst (SyncDefaultBranch Subprocess ''true'' (example_repo ''app'' ''group/app'') clone_on_feature) =
     (True, None)"
  "snd (snd (SyncDefaultBranch Subprocess ''true'' (example_repo ''app'' ''group/app'') clone_on_feature)) =
     [CallFetchCloneBranch ''main'', CallUpdateRef ''refs/heads/main'' ''refs/remotes/origin/main'']"
  "refs (fst (snd (SyncDefaultBranch Subprocess ''true'' (example_repo ''app'' ''group/app'')
     clone_on_feature))) ''refs/heads/main'' = Some ''b2''"
  "HEAD (fst (snd (SyncDefaultBranch Subprocess ''true'' (example_repo ''app'' ''group/app'')
     clone_on_feature))) = OnBranch ''feature''"
  by code_simp+

text \<open>
  The library backend takes the default branch from the remote's \<^verbatim>\<open>HEAD\<close>, whole. So, from
  the state of the clone and its remote alone: on a clean clone with a reachable origin
  whose default branch is \<open>d\<close>, checked out on another branch, the run fetches \<open>d\<close>, sets
  \<^verbatim>\<open>refs/heads/d\<close> to the remote's commit by one ref update and changes nothing else.
\<close>

lemma branch_ref_prefix:
  "HasPrefix (branch_ref d) ''refs/heads/''" "TrimPrefix (branch_ref d) ''refs/heads/'' = d"
  by (simp_all add: branch_ref_def HasPrefix_def TrimPrefix_def)

lemma gogit_detects_remote_HEAD:
  assumes "origin_url s = Some url" "remote_reachable s" "remote_HEAD s = Some (branch_ref d)"
  shows "detectDefaultBranch goGit repo s = Inr d"
  using assms
  by (simp add: detectDefaultBranch_def goGit_def gogit_GetRemoteDefaultBranch_def branch_ref_prefix)

lemma SyncDefaultBranch_library_on_other_branch:
  assumes origin: "origin_url s = Some url" and reach: "remote_reachable s"
    and dflt: "remote_HEAD s = Some (branch_ref d)"
    and clean: "\<not> bare s" "status s = []"
    and cur: "HEAD s = OnBranch cur" "refs s (branch_ref cur) = Some c"
    and other: "cur \<noteq> d"
    and remote: "remote_heads s d = Some h"
  shows "SyncDefaultBranch Library ''true'' repo s =
          (((case refs s (branch_ref d) of None \<Rightarrow> [] | Some before \<Rightarrow> before) \<noteq> h, None),
           s\<lparr>refs := (refs s)(remote_ref d \<mapsto> h, branch_ref d \<mapsto> h)\<rparr>,
           [CallFetchCloneBranch d, CallUpdateRef (branch_ref d) (remote_ref d)])"
proof -
  have d: "detectDefaultBranch goGit repo s = Inr d"
    by (rule gogit_detects_remote_HEAD[OF origin reach dflt])
  have u: "GetRemoteURL goGit s repo ''origin'' = Inr url"
    using origin by (simp add: goGit_def git_GetRemoteURL_def)
  have w: "HasLocalChanges goGit s repo = Inr False"
    using clean by (simp add: goGit_def git_HasLocalChanges_def)
  have c: "GetCurrentBranch goGit s repo = Inr cur"
    using cur by (simp add: goGit_def gogit_GetCurrentBranch_def)
  have f: "FetchCloneBranch goGit (repo\<lparr>CloneBranch := d\<rparr>) s =
             (None, s\<lparr>refs := (refs s)(remote_ref d \<mapsto> h)\<rparr>)"
    using origin reach remote by (simp add: goGit_def git_FetchCloneBranch_def)
  have up: "UpdateRef goGit repo (branch_ref d) (remote_ref d)
              (s\<lparr>refs := (refs s)(remote_ref d \<mapsto> h)\<rparr>) =
             (None, s\<lparr>refs := (refs s)(remote_ref d \<mapsto> h, branch_ref d \<mapsto> h)\<rparr>)"
    by (simp add: goGit_def git_UpdateRef_def)
  have g: "GetRefHash goGit = git_GetRefHash" by (simp add: goGit_def)
  have upd: "sync_fetch_and_update goGit repo cur d s =
          (((case refs s (branch_ref d) of None \<Rightarrow> [] | Some before \<Rightarrow> before) \<noteq> h, None),
           s\<lparr>refs := (refs s)(remote_ref d \<mapsto> h, branch_ref d \<mapsto> h)\<rparr>,
           [CallFetchCloneBranch d, CallUpdateRef (branch_ref d) (remote_ref d)])"
    using other
    by (simp add: sync_fetch_and_update_def Let_def f up sync_compare_hashes_def g git_GetRefHash_def
             split: option.splits)
  have skip: "\<not> skip_for_unpushed goGit repo cur d s"
    using other by (simp add: skip_for_unpushed_def)
  show ?thesis
    unfolding SyncDefaultBranch_def SyncDefaultBranch_gogit_def
    by (simp only: backend.case u w c d skip upd sum.case if_False if_True simp_thms)
qed

lemma example_sync_release_default_library:
  "fst (SyncDefaultBranch Library ''true'' (example_repo ''app'' ''group/app'')
     clone_release_default) = (True, None)"
  "snd (snd (SyncDefaultBranch Library ''true'' (example_repo ''app'' ''group/app'')
     clone_release_default)) =
     [CallFetchCloneBranch ''release/v1'',
      CallUpdateRef (branch_ref ''release/v1'') (remote_ref ''release/v1'')]"
  "refs (fst (snd (SyncDefaultBranch Library ''true'' (example_repo ''app'' ''group/app'')
     clone_release_default))) (branch_ref ''release/v1'') = Some ''b2''"
  "refs (fst (snd (SyncDefaultBranch Library ''true'' (example_repo ''app'' ''group/app'')
     clone_release_default))) (branch_ref ''v1'') = Some ''a1''"
  by code_simp+

text \<open>
  C6. The claim requires of a run on a current branch other than the remote default
  branch that it moves \<^verbatim>\<open>refs/heads/<default>\<close> to the commit of
  \<^verbatim>\<open>refs/remotes/origin/<default>\<close> by a ref update only, leaving the current branch, \<^verbatim>\<open>HEAD\<close>
  and the working tree as they are. The subprocess backend reads the default branch from
  the target of \<^verbatim>\<open>refs/remotes/origin/HEAD\<close> and keeps the last element of that path only:
  for the remote default branch \<^verbatim>\<open>release/v1\<close> it works with \<^verbatim>\<open>v1\<close>.

  On the clone checked out on \<^verbatim>\<open>feature\<close> the run returns \<^verbatim>\<open>(true, nil)\<close> after fetching
  \<^verbatim>\<open>v1\<close> and moving \<^verbatim>\<open>refs/heads/v1\<close> from \<^verbatim>\<open>a1\<close> to \<^verbatim>\<open>c3\<close>; \<^verbatim>\<open>refs/heads/release/v1\<close> and
  \<^verbatim>\<open>refs/remotes/origin/release/v1\<close> are still at \<^verbatim>\<open>a1\<close>, while the remote's default branch is
  at \<^verbatim>\<open>b2\<close>. On the clone checked out on \<^verbatim>\<open>v1\<close>, a branch other than the remote default
  branch, the run takes the current branch for the default branch and merges: the current
  branch and the checked-out tree move from \<^verbatim>\<open>a1\<close> to \<^verbatim>\<open>c3\<close>, and \<^verbatim>\<open>refs/heads/release/v1\<close>
  stays at \<^verbatim>\<open>a1\<close>.
\<close>

theorem SyncDefaultBranch_subprocess_cuts_default_branch_name:
  "remote_HEAD clone_release_default = Some (branch_ref ''release/v1'') \<and>
   remote_heads clone_release_default ''release/v1'' = Some ''b2'' \<and>
   HEAD clone_release_default = OnBranch ''feature'' \<and>
   refs clone_release_default (branch_ref ''release/v1'') = Some ''a1'' \<and>
   refs clone_release_default (branch_ref ''v1'') = Some ''a1'' \<and>
   GetRemoteDefaultBranch (gitter_of Subprocess) clone_release_default
     (example_repo ''app'' ''group/app'') = Inr ''v1'' \<and>
   fst (SyncDefaultBranch Subprocess ''true'' (example_repo ''app'' ''group/app'')
     clone_release_default) = (True, None) \<and>
   snd (snd (SyncDefaultBranch Subprocess ''true'' (example_repo ''app'' ''group/app'')
     clone_release_default)) =
     [CallFetchCloneBranch ''v1'', CallUpdateRef (branch_ref ''v1'') (remote_ref ''v1'')] \<and>
   refs (fst (snd (SyncDefaultBranch Subprocess ''true'' (example_repo ''app'' ''group/app'')
     clone_release_default))) (branch_ref ''release/v1'') = Some ''a1'' \<and>
   refs (fst (snd (SyncDefaultBranch Subprocess ''true'' (example_repo ''app'' ''group/app'')
     clone_release_default))) (remote_ref ''release/v1'') = Some ''a1'' \<and>
   refs (fst (snd (SyncDefaultBranch Subprocess ''true'' (example_repo ''app'' ''group/app'')
     clone_release_default))) (branch_ref ''v1'') = Some ''c3'' \<and>
   HEAD clone_release_default_on_v1 = OnBranch ''v1'' \<and>
   checked_out clone_release_default_on_v1 = Some ''a1'' \<and>
   fst (SyncDefaultBranch Subprocess ''true'' (example_repo ''app'' ''group/app'')
     clone_release_default_on_v1) = (True, None) \<and>
   snd (snd (SyncDefaultBranch Subprocess ''true'' (example_repo ''app'' ''group/app'')
     clone_release_default_on_v1)) =
     [CallFetchCloneBranch ''v1'', CallMergeFastForward ''v1''] \<and>
   refs (fst (snd (SyncDefaultBranch Subprocess ''true'' (example_repo ''app'' ''group/app'')
     clone_release_default_on_v1))) (branch_ref ''v1'') = Some ''c3'' \<and>
   checked_out (fst (snd (SyncDefaultBranch Subprocess ''true'' (example_repo ''app'' ''group/app'')
     clone_release_default_on_v1))) = Some ''c3'' \<and>
   refs (fst (snd (SyncDefaultBranch Subprocess ''true'' (example_repo ''app'' ''group/app'')
     clone_release_default_on_v1))) (branch_ref ''release/v1'') = Some ''a1''"
  by code_simp

section \<open>Fast-forward merges\<close>

text \<open>
  The subprocess backend moves the head only forward: when the head commit is not an
  ancestor of the remote-tracking commit the clone is left as it is, and the call succeeds
  only if the remote-tracking commit is already contained in the head.
\<close>

lemma exec_MergeFastForward_is_ff_only:
  assumes "exec_MergeFastForward repo s = (err, s')"
    and "head_commit s = Some cur"
    and "refs s (remote_ref (CloneBranch repo)) = Some target"
    and "\<not> is_ancestor s cur target"
  shows "s' = s \<and> (err = None \<longrightarrow> is_ancestor s target cur)"
  using assms by (auto simp: exec_MergeFastForward_def split: if_splits)

text \<open>
  C2. The claim requires of both backends that a head which is not an ancestor of
  \<^verbatim>\<open>refs/remotes/origin/<CloneBranch>\<close> makes \<^verbatim>\<open>MergeFastForward\<close> return an error and leave
  the branch where it is. On the clone whose branch \<^verbatim>\<open>main\<close> is at \<^verbatim>\<open>c3\<close> while
  \<^verbatim>\<open>origin/main\<close> is at \<^verbatim>\<open>b2\<close>, both children of \<^verbatim>\<open>a1\<close>, the library backend returns no error
  and has moved \<^verbatim>\<open>main\<close> to \<^verbatim>\<open>b2\<close>; the subprocess backend refuses and leaves \<^verbatim>\<open>main\<close> at
  \<^verbatim>\<open>c3\<close>.
\<close>

theorem MergeFastForward_library_moves_diverged_branch:
  "head_commit clone_diverged = Some ''c3'' \<and>
   refs clone_diverged (remote_ref ''main'') = Some ''b2'' \<and>
   \<not> is_ancestor clone_diverged ''c3'' ''b2'' \<and>
   fst (MergeFastForward (gitter_of Library) (example_repo ''app'' ''group/app'') clone_diverged) = None \<and>
   refs (snd (MergeFastForward (gitter_of Library) (example_repo ''app'' ''group/app'') clone_diverged))
     (branch_ref ''main'') = Some ''b2'' \<and>
   fst (MergeFastForward (gitter_of Subprocess) (example_repo ''app'' ''group/app'') clone_diverged) =
     Some (GitError ''Not possible to fast-forward, aborting'') \<and>
   refs (snd (MergeFastForward (gitter_of Subprocess) (example_repo ''app'' ''group/app'') clone_diverged))
     (branch_ref ''main'') = Some ''c3''"
  by code_simp

text \<open>
  The same clone under \<^verbatim>\<open>SyncDefaultBranch\<close>: the library backend's unpushed-commit check
  answers no (the upstream is not an ancestor of the head), the sync proceeds and the
  local commit \<^verbatim>\<open>c3\<close> is no longer on \<^verbatim>\<open>main\<close>; the subprocess backend skips the sync.
\<close>

lemma example_sync_diverged:
  "fst (SyncDefaultBranch Library ''true'' (example_repo ''app'' ''group/app'') clone_diverged) =
     (True, None)"
  "refs (fst (snd (SyncDefaultBranch Library ''true'' (example_repo ''app'' ''group/app'')
     clone_diverged))) (branch_ref ''main'') = Some ''b2''"
  "fst (SyncDefaultBranch Subprocess ''true'' (example_repo ''app'' ''group/app'') clone_diverged) =
     (False, None)"
  "snd (snd (SyncDefaultBranch Subprocess ''true'' (example_repo ''app'' ''group/app'')
     clone_diverged)) = []"
  by code_simp+

section \<open>When the synchronisation is skipped\<close>





















section \<open>Name collisions and destinations\<close>

text \<open>
  The collision map in terms of how often a short name occurs among the plain repositories
  of the list.
\<close>

lemma collisions_loop_skip:
  "\<not> plain_repo repo \<Longrightarrow> collisions_loop (repo # repos) m has = collisions_loop repos m has"
  by (auto simp: plain_repo_def)

lemma collisions_loop_new:
  "plain_repo repo \<Longrightarrow> m (Name repo) = None \<Longrightarrow>
   collisions_loop (repo # repos) m has = collisions_loop repos (m(Name repo \<mapsto> False)) has"
  by (simp add: plain_repo_def)

lemma collisions_loop_seen:
  "plain_repo repo \<Longrightarrow> m (Name repo) = Some seen \<Longrightarrow>
   collisions_loop (repo # repos) m has = collisions_loop repos (m(Name repo \<mapsto> True)) True"
  by (simp add: plain_repo_def)

lemma collisions_loop_map:
  "fst (collisions_loop repos m has) n =
     (if count_list (map Name (filter plain_repo repos)) n = 0 then m n
      else Some (m n \<noteq> None \<or> 2 \<le> count_list (map Name (filter plain_repo repos)) n))"
proof (induction repos arbitrary: m has)
  case Nil
  show ?case by simp
next
  case (Cons repo repos)
  let ?c = "count_list (map Name (filter plain_repo repos))"
  show ?case
  proof (cases "plain_repo repo")
    case False
    then show ?thesis by (simp add: collisions_loop_skip Cons.IH del: collisions_loop.simps)
  next
    case True
    show ?thesis
    proof (cases "m (Name repo)")
      case None
      have step: "fst (collisions_loop (repo # repos) m has) n =
            (if ?c n = 0 then (m(Name repo \<mapsto> False)) n
             else Some ((m(Name repo \<mapsto> False)) n \<noteq> None \<or> 2 \<le> ?c n))"
        by (simp only: collisions_loop_new[of repo m, OF True None] Cons.IH)
      show ?thesis
      proof (cases "n = Name repo")
        case True
        with step \<open>plain_repo repo\<close> None show ?thesis by (cases "?c n = 0") auto
      next
        case False
        with step \<open>plain_repo repo\<close> show ?thesis by simp
      qed
    next
      case (Some seen)
      have step: "fst (collisions_loop (repo # repos) m has) n =
            (if ?c n = 0 then (m(Name repo \<mapsto> True)) n
             else Some ((m(Name repo \<mapsto> True)) n \<noteq> None \<or> 2 \<le> ?c n))"
        by (simp only: collisions_loop_seen[of repo m, OF True Some] Cons.IH)
      show ?thesis
      proof (cases "n = Name repo")
        case True
        with step \<open>plain_repo repo\<close> Some show ?thesis by (cases "?c n = 0") auto
      next
        case False
        with step \<open>plain_repo repo\<close> show ?thesis by simp
      qed
    qed
  qed
qed

lemma collisions_loop_flag_mono: "has \<Longrightarrow> snd (collisions_loop repos m has)"
  by (induction repos arbitrary: m) (auto split: option.splits)

lemma collisions_loop_flag:
  "snd (collisions_loop repos m has) \<longleftrightarrow>
     has \<or> (\<exists>n. 0 < count_list (map Name (filter plain_repo repos)) n \<and>
               (m n \<noteq> None \<or> 2 \<le> count_list (map Name (filter plain_repo repos)) n))"
proof (induction repos arbitrary: m has)
  case Nil
  show ?case by simp
next
  case (Cons repo repos)
  let ?c = "count_list (map Name (filter plain_repo repos))"
  let ?k = "Name repo"
  show ?case
  proof (cases "plain_repo repo")
    case False
    then show ?thesis by (simp add: collisions_loop_skip Cons.IH del: collisions_loop.simps)
  next
    case True
    have cnt: "count_list (map Name (filter plain_repo (repo # repos))) n =
                 (if n = ?k then Suc (?c n) else ?c n)" for n
      using True by simp
    show ?thesis
    proof (cases "m ?k")
      case None
      have step: "snd (collisions_loop (repo # repos) m has) \<longleftrightarrow>
            has \<or> (\<exists>n. 0 < ?c n \<and> ((m(?k \<mapsto> False)) n \<noteq> None \<or> 2 \<le> ?c n))"
        by (simp only: collisions_loop_new[of repo m, OF True None] Cons.IH)
      have "(\<exists>n. 0 < ?c n \<and> ((m(?k \<mapsto> False)) n \<noteq> None \<or> 2 \<le> ?c n)) \<longleftrightarrow>
            (\<exists>n. 0 < (if n = ?k then Suc (?c n) else ?c n) \<and>
                 (m n \<noteq> None \<or> 2 \<le> (if n = ?k then Suc (?c n) else ?c n)))"
        (is "?L \<longleftrightarrow> ?R")
      proof
        assume ?L
        then obtain n where n: "0 < ?c n" "(m(?k \<mapsto> False)) n \<noteq> None \<or> 2 \<le> ?c n" by blast
        show ?R
        proof (cases "n = ?k")
          case True
          with n(1) show ?thesis by (intro exI[of _ ?k]) simp
        next
          case False
          with n show ?thesis by (intro exI[of _ n]) simp
        qed
      next
        assume ?R
        then obtain n where n: "0 < (if n = ?k then Suc (?c n) else ?c n)"
          "m n \<noteq> None \<or> 2 \<le> (if n = ?k then Suc (?c n) else ?c n)" by blast
        show ?L
        proof (cases "n = ?k")
          case True
          with n(2) None have "0 < ?c ?k" by simp
          then show ?thesis by (intro exI[of _ ?k]) simp
        next
          case False
          with n show ?thesis by (intro exI[of _ n]) simp
        qed
      qed
      with step show ?thesis by (simp only: cnt)
    next
      case (Some seen)
      have "snd (collisions_loop (repo # repos) m has)"
        by (simp only: collisions_loop_seen[of repo m, OF True Some] collisions_loop_flag_mono)
      moreover have "0 < (if ?k = ?k then Suc (?c ?k) else ?c ?k) \<and>
                     (m ?k \<noteq> None \<or> 2 \<le> (if ?k = ?k then Suc (?c ?k) else ?c ?k))"
        using Some by simp
      then have "\<exists>n. 0 < (if n = ?k then Suc (?c n) else ?c n) \<and>
                   (m n \<noteq> None \<or> 2 \<le> (if n = ?k then Suc (?c n) else ?c n))"
        by (rule exI)
      ultimately show ?thesis by (simp only: cnt simp_thms)
    qed
  qed
qed


lemma hasRepoNameCollisions_gate_closed:
  "env ''GHORG_GITLAB_TOKEN'' = [] \<or> env ''GHORG_PRESERVE_DIRECTORY_STRUCTURE'' = ''true'' \<Longrightarrow>
   hasRepoNameCollisions env repos = (Map.empty, False)"
  by (auto simp: hasRepoNameCollisions_def)

lemma hasRepoNameCollisions_gate_open:
  assumes "env ''GHORG_GITLAB_TOKEN'' \<noteq> []" "env ''GHORG_PRESERVE_DIRECTORY_STRUCTURE'' \<noteq> ''true''"
  shows "fst (hasRepoNameCollisions env repos) n =
           (if count_list (map Name (filter plain_repo repos)) n = 0 then None
            else Some (2 \<le> count_list (map Name (filter plain_repo repos)) n))"
    and "snd (hasRepoNameCollisions env repos) \<longleftrightarrow>
           (\<exists>n. 2 \<le> count_list (map Name (filter plain_repo repos)) n)"
proof -
  have eq: "hasRepoNameCollisions env repos = collisions_loop repos Map.empty False"
    using assms by (simp add: hasRepoNameCollisions_def)
  show "fst (hasRepoNameCollisions env repos) n =
           (if count_list (map Name (filter plain_repo repos)) n = 0 then None
            else Some (2 \<le> count_list (map Name (filter plain_repo repos)) n))"
    by (simp only: eq collisions_loop_map) simp
  have "snd (hasRepoNameCollisions env repos) \<longleftrightarrow>
          (\<exists>n. 0 < count_list (map Name (filter plain_repo repos)) n \<and>
               2 \<le> count_list (map Name (filter plain_repo repos)) n)"
    by (simp only: eq collisions_loop_flag) simp
  also have "\<dots> \<longleftrightarrow> (\<exists>n. 2 \<le> count_list (map Name (filter plain_repo repos)) n)"
  proof -
    have "0 < k \<and> 2 \<le> k \<longleftrightarrow> 2 \<le> k" for k :: nat by arith
    then show ?thesis by (simp only:)
  qed
  finally show "snd (hasRepoNameCollisions env repos) \<longleftrightarrow>
           (\<exists>n. 2 \<le> count_list (map Name (filter plain_repo repos)) n)" .
qed

lemma repoSlug_of_safe:
  assumes "repoSlug_of env repo = Inr slug" "env ''GHORG_PRESERVE_DIRECTORY_STRUCTURE'' \<noteq> ''true''"
  shows "CHR ''/'' \<notin> set slug"
  using assms by (auto simp: repoSlug_of_def isPathSegmentSafe_def Let_def split: if_splits)

lemma namespace_suffix_no_slash: "CHR ''/'' \<notin> set (namespace_suffix repo)"
  by (auto simp: namespace_suffix_def ReplaceAll_byte_def)

lemma Join_suffixed_name_inject:
  assumes "CHR ''/'' \<notin> set a" "CHR ''/'' \<notin> set b" "CHR ''/'' \<notin> set c" "CHR ''/'' \<notin> set d"
    and "Join root (a @ ''_'' @ b) = Join root (c @ ''_'' @ d)"
  shows "a @ ''_'' @ b = c @ ''_'' @ d"
proof -
  have nd: "x @ ''_'' @ y \<noteq> ''.''" "x @ ''_'' @ y \<noteq> ''..''" for x y :: string
  proof -
    show "x @ ''_'' @ y \<noteq> ''.''"
    proof
      assume "x @ ''_'' @ y = ''.''"
      from arg_cong[OF this, of "\<lambda>s. CHR ''_'' \<in> set s"] show False by simp
    qed
    show "x @ ''_'' @ y \<noteq> ''..''"
    proof
      assume "x @ ''_'' @ y = ''..''"
      from arg_cong[OF this, of "\<lambda>s. CHR ''_'' \<in> set s"] show False by simp
    qed
  qed
  have s1: "CHR ''/'' \<notin> set (a @ ''_'' @ b)" using assms(1,2) by simp
  have s2: "CHR ''/'' \<notin> set (c @ ''_'' @ d)" using assms(3,4) by simp
  have e1: "a @ ''_'' @ b \<noteq> []" by simp
  have e2: "c @ ''_'' @ d \<noteq> []" by simp
  have b1: "base_name (Join root (a @ ''_'' @ b)) = a @ ''_'' @ b"
    by (rule base_name_Join[OF s1 e1 nd(1) nd(2)])
  have b2: "base_name (Join root (c @ ''_'' @ d)) = c @ ''_'' @ d"
    by (rule base_name_Join[OF s2 e2 nd(1) nd(2)])
  have "a @ ''_'' @ b = base_name (Join root (a @ ''_'' @ b))" by (rule b1[symmetric])
  also have "\<dots> = base_name (Join root (c @ ''_'' @ d))" by (rule arg_cong[OF assms(5)])
  also have "\<dots> = c @ ''_'' @ d" by (rule b2)
  finally show ?thesis .
qed

text \<open>
  Writing the separators of a path as underscores loses nothing when the path has no
  underscore of its own.
\<close>

lemma ReplaceAll_byte_inject:
  "new \<notin> set a \<Longrightarrow> new \<notin> set b \<Longrightarrow>
   ReplaceAll_byte a old new = ReplaceAll_byte b old new \<Longrightarrow> a = b"
proof (induction a arbitrary: b)
  case Nil
  then show ?case by (simp add: ReplaceAll_byte_def)
next
  case (Cons x xs)
  then obtain y ys where b: "b = y # ys" by (cases b) (auto simp: ReplaceAll_byte_def)
  from Cons.prems b have "x = y" by (auto simp: ReplaceAll_byte_def split: if_splits)
  moreover from Cons.prems b have "ReplaceAll_byte xs old new = ReplaceAll_byte ys old new"
    by (simp add: ReplaceAll_byte_def)
  with Cons.IH[of ys] Cons.prems b have "xs = ys" by simp
  ultimately show ?case by (simp add: b)
qed

lemma set_TrimPrefix: "set (TrimPrefix s pre) \<subseteq> set s"
  by (simp add: TrimPrefix_def set_drop_subset)

lemma namespace_suffix_inject:
  assumes "CHR ''_'' \<notin> set (Path r1)" "CHR ''_'' \<notin> set (Path r2)"
    and "namespace_suffix r1 = namespace_suffix r2"
  shows "TrimPrefix (Path r1) ''/'' = TrimPrefix (Path r2) ''/''"
proof -
  have a: "CHR ''_'' \<notin> set (TrimPrefix (Path r1) ''/'')"
    using assms(1) set_TrimPrefix[of "Path r1" "''/''"] by (rule contra_subsetD[rotated])
  have b: "CHR ''_'' \<notin> set (TrimPrefix (Path r2) ''/'')"
    using assms(2) set_TrimPrefix[of "Path r2" "''/''"] by (rule contra_subsetD[rotated])
  from assms(3) show ?thesis
    unfolding namespace_suffix_def by (rule ReplaceAll_byte_inject[OF a b])
qed

text \<open>
  C5, as the code has it. With a GitLab token configured and directory preservation off,
  let two plain repositories at different places of the kept list share their short
  \<open>Name\<close> and their directory name. Then the name is flagged in the collision map, a
  collision is reported, and both get the namespace-derived suffix. When the suffixed
  names fit into 248 characters, the two destinations are the same path exactly when the
  two suffixes are the same; they are different paths whenever the two namespace paths
  (\<open>Path\<close>, a leading slash aside) differ and contain no underscore.
\<close>

theorem colliding_names_get_distinct_destinations:
  assumes token: "env ''GHORG_GITLAB_TOKEN'' \<noteq> []"
    and nopres: "env ''GHORG_PRESERVE_DIRECTORY_STRUCTURE'' \<noteq> ''true''"
    and kept: "kept = xs @ r1 # ys @ r2 # zs"
    and plain: "plain_repo r1" "plain_repo r2"
    and same: "Name r1 = Name r2"
    and slug: "repoSlug_of env r1 = Inr slug" "repoSlug_of env r2 = Inr slug"
    and fits: "length (slug @ ''_'' @ namespace_suffix r1) \<le> 248"
              "length (slug @ ''_'' @ namespace_suffix r2) \<le> 248"
  shows "fst (hasRepoNameCollisions env kept) (Name r1) = Some True \<and>
         snd (hasRepoNameCollisions env kept) \<and>
         hostPath_of env root kept r1 = Inr (Join root (slug @ ''_'' @ namespace_suffix r1)) \<and>
         hostPath_of env root kept r2 = Inr (Join root (slug @ ''_'' @ namespace_suffix r2)) \<and>
         (hostPath_of env root kept r1 = hostPath_of env root kept r2 \<longleftrightarrow>
            namespace_suffix r1 = namespace_suffix r2) \<and>
         (CHR ''_'' \<notin> set (Path r1) \<and> CHR ''_'' \<notin> set (Path r2) \<and>
          TrimPrefix (Path r1) ''/'' \<noteq> TrimPrefix (Path r2) ''/'' \<longrightarrow>
            hostPath_of env root kept r1 \<noteq> hostPath_of env root kept r2)"
proof -
  have cnt: "2 \<le> count_list (map Name (filter plain_repo kept)) (Name r1)"
    using plain same by (simp add: kept)
  have flagged: "fst (hasRepoNameCollisions env kept) (Name r1) = Some True"
    using cnt by (simp add: hasRepoNameCollisions_gate_open(1)[OF token nopres])
  have has: "snd (hasRepoNameCollisions env kept)"
    using cnt hasRepoNameCollisions_gate_open(2)[OF token nopres, of kept] by blast
  have p1: "hostPath_of env root kept r1 = Inr (Join root (slug @ ''_'' @ namespace_suffix r1))"
    using flagged has plain(1) slug(1) trimCollisionFilename_short[OF fits(1)]
    by (simp add: hostPath_of_def planned_name_def plain_repo_def split_beta)
  have p2: "hostPath_of env root kept r2 = Inr (Join root (slug @ ''_'' @ namespace_suffix r2))"
    using flagged has plain(2) slug(2) same trimCollisionFilename_short[OF fits(2)]
    by (simp add: hostPath_of_def planned_name_def plain_repo_def split_beta)
  have inj: "namespace_suffix r1 = namespace_suffix r2"
    if eq: "Join root (slug @ ''_'' @ namespace_suffix r1) = Join root (slug @ ''_'' @ namespace_suffix r2)"
  proof -
    from Join_suffixed_name_inject[OF repoSlug_of_safe[OF slug(1) nopres] namespace_suffix_no_slash
           repoSlug_of_safe[OF slug(2) nopres] namespace_suffix_no_slash eq]
    show ?thesis by simp
  qed
  have iff: "hostPath_of env root kept r1 = hostPath_of env root kept r2 \<longleftrightarrow>
               namespace_suffix r1 = namespace_suffix r2"
  proof
    assume "hostPath_of env root kept r1 = hostPath_of env root kept r2"
    then have "Join root (slug @ ''_'' @ namespace_suffix r1) =
               Join root (slug @ ''_'' @ namespace_suffix r2)"
      unfolding p1 p2 by (rule sum.inject(2)[THEN iffD1])
    then show "namespace_suffix r1 = namespace_suffix r2" by (rule inj)
  next
    assume e: "namespace_suffix r1 = namespace_suffix r2"
    show "hostPath_of env root kept r1 = hostPath_of env root kept r2"
      unfolding p1 p2 by (rule arg_cong[OF e])
  qed
  have distinct: "CHR ''_'' \<notin> set (Path r1) \<and> CHR ''_'' \<notin> set (Path r2) \<and>
          TrimPrefix (Path r1) ''/'' \<noteq> TrimPrefix (Path r2) ''/'' \<longrightarrow>
            hostPath_of env root kept r1 \<noteq> hostPath_of env root kept r2"
  proof (intro impI notI, elim conjE)
    assume u: "CHR ''_'' \<notin> set (Path r1)" "CHR ''_'' \<notin> set (Path r2)"
      and ne: "TrimPrefix (Path r1) ''/'' \<noteq> TrimPrefix (Path r2) ''/''"
      and eq: "hostPath_of env root kept r1 = hostPath_of env root kept r2"
    from eq have "namespace_suffix r1 = namespace_suffix r2" by (rule iff[THEN iffD1])
    from namespace_suffix_inject[OF u this] ne show False by (rule notE[rotated])
  qed
  from flagged has p1 p2 iff distinct show ?thesis by (intro conjI)
qed

text \<open>
  The witness: \<^verbatim>\<open>group1/app\<close> and \<^verbatim>\<open>group2/app\<close>, cloned with a token below \<^verbatim>\<open>/r\<close>.
\<close>

lemma example_slugs:
  "repoSlug_of example_env_gitlab_token (example_repo ''app'' ''group1/app'') = Inr ''app''"
  "repoSlug_of example_env_gitlab_token (example_repo ''app'' ''group2/app'') = Inr ''app''"
  "namespace_suffix (example_repo ''app'' ''group1/app'') = ''group1_app''"
  "namespace_suffix (example_repo ''app'' ''group2/app'') = ''group2_app''"
  by code_simp+

theorem colliding_names_get_distinct_destinations_witness:
  "hostPath_of example_env_gitlab_token ''/r''
     [example_repo ''app'' ''group1/app'', example_repo ''app'' ''group2/app'']
     (example_repo ''app'' ''group1/app'') = Inr ''/r/app_group1_app'' \<and>
   hostPath_of example_env_gitlab_token ''/r''
     [example_repo ''app'' ''group1/app'', example_repo ''app'' ''group2/app'']
     (example_repo ''app'' ''group2/app'') = Inr ''/r/app_group2_app'' \<and>
   hostPath_of example_env_gitlab_token ''/r''
     [example_repo ''app'' ''group1/app'', example_repo ''app'' ''group2/app'']
     (example_repo ''app'' ''group1/app'') \<noteq>
   hostPath_of example_env_gitlab_token ''/r''
     [example_repo ''app'' ''group1/app'', example_repo ''app'' ''group2/app'']
     (example_repo ''app'' ''group2/app'')"
proof -
  let ?r1 = "example_repo ''app'' ''group1/app''"
  let ?r2 = "example_repo ''app'' ''group2/app''"
  have token: "example_env_gitlab_token ''GHORG_GITLAB_TOKEN'' \<noteq> []" by code_simp
  have nopres: "example_env_gitlab_token ''GHORG_PRESERVE_DIRECTORY_STRUCTURE'' \<noteq> ''true''"
    by code_simp
  have kept: "[?r1, ?r2] = [] @ ?r1 # [] @ ?r2 # []" by simp
  have plain: "plain_repo ?r1" "plain_repo ?r2" by code_simp+
  have same: "Name ?r1 = Name ?r2" by code_simp
  have fits: "length (''app'' @ ''_'' @ namespace_suffix ?r1) \<le> 248"
    "length (''app'' @ ''_'' @ namespace_suffix ?r2) \<le> 248" by (simp_all add: example_slugs)
  have paths: "CHR ''_'' \<notin> set (Path ?r1) \<and> CHR ''_'' \<notin> set (Path ?r2) \<and>
               TrimPrefix (Path ?r1) ''/'' \<noteq> TrimPrefix (Path ?r2) ''/''"
    by code_simp
  have j: "Join ''/r'' ''app_group1_app'' = ''/r/app_group1_app''"
    "Join ''/r'' ''app_group2_app'' = ''/r/app_group2_app''" by code_simp+
  note inst = colliding_names_get_distinct_destinations
         [OF token nopres kept plain same example_slugs(1,2) fits, of "''/r''"]
  have a: "hostPath_of example_env_gitlab_token ''/r'' [?r1, ?r2] ?r1 = Inr ''/r/app_group1_app''"
    using inst[THEN conjunct2, THEN conjunct2, THEN conjunct1] by (simp add: example_slugs j)
  have b: "hostPath_of example_env_gitlab_token ''/r'' [?r1, ?r2] ?r2 = Inr ''/r/app_group2_app''"
    using inst[THEN conjunct2, THEN conjunct2, THEN conjunct2, THEN conjunct1]
    by (simp add: example_slugs j)
  have c: "hostPath_of example_env_gitlab_token ''/r'' [?r1, ?r2] ?r1 \<noteq>
           hostPath_of example_env_gitlab_token ''/r'' [?r1, ?r2] ?r2"
    by (rule inst[THEN conjunct2, THEN conjunct2, THEN conjunct2, THEN conjunct2, THEN conjunct2,
                 THEN mp, OF paths])
  from a b c show ?thesis by (intro conjI)
qed

text \<open>
  C5, as the claim has it, holds for every kept set. Three kept sets of two plain
  repositories named \<^verbatim>\<open>app\<close> with different namespace paths, both sent to one destination:
  \<^item> without a GitLab token \<^verbatim>\<open>hasRepoNameCollisions\<close> returns the empty map at once, and
    \<^verbatim>\<open>group1/app\<close> and \<^verbatim>\<open>group2/app\<close> both go to \<^verbatim>\<open>/r/app\<close>;
  \<^item> with a token, \<^verbatim>\<open>g_h/app\<close> and \<^verbatim>\<open>g/h/app\<close> get the same suffix and both go to
    \<^verbatim>\<open>/r/app_g_h_app\<close>;
  \<^item> with a token, the suffixed names of \<^verbatim>\<open>g/aaa...a/app\<close> and \<^verbatim>\<open>g/bbb...b/app\<close> are longer
    than 248 characters and are both cut to \<^verbatim>\<open>app_g\<close>.
\<close>

theorem colliding_names_counterexample:
  "plain_repo (example_repo ''app'' ''group1/app'') \<and>
   plain_repo (example_repo ''app'' ''group2/app'') \<and>
   Path (example_repo ''app'' ''group1/app'') \<noteq> Path (example_repo ''app'' ''group2/app'') \<and>
   Name (example_repo ''app'' ''group1/app'') = Name (example_repo ''app'' ''group2/app'') \<and>
   hostPath_of example_env_no_token ''/r''
     [example_repo ''app'' ''group1/app'', example_repo ''app'' ''group2/app'']
     (example_repo ''app'' ''group1/app'') = Inr ''/r/app'' \<and>
   hostPath_of example_env_no_token ''/r''
     [example_repo ''app'' ''group1/app'', example_repo ''app'' ''group2/app'']
     (example_repo ''app'' ''group2/app'') = Inr ''/r/app'' \<and>
   plain_repo (example_repo ''app'' ''g_h/app'') \<and> plain_repo (example_repo ''app'' ''g/h/app'') \<and>
   Name (example_repo ''app'' ''g_h/app'') = Name (example_repo ''app'' ''g/h/app'') \<and>
   hostPath_of example_env_gitlab_token ''/r''
     [example_repo ''app'' ''g_h/app'', example_repo ''app'' ''g/h/app'']
     (example_repo ''app'' ''g_h/app'') = Inr ''/r/app_g_h_app'' \<and>
   hostPath_of example_env_gitlab_token ''/r''
     [example_repo ''app'' ''g_h/app'', example_repo ''app'' ''g/h/app'']
     (example_repo ''app'' ''g/h/app'') = Inr ''/r/app_g_h_app'' \<and>
   plain_repo (example_long_repo (CHR ''a'')) \<and> plain_repo (example_long_repo (CHR ''b'')) \<and>
   Name (example_long_repo (CHR ''a'')) = Name (example_long_repo (CHR ''b'')) \<and>
   Path (example_long_repo (CHR ''a'')) \<noteq> Path (example_long_repo (CHR ''b'')) \<and>
   hostPath_of example_env_gitlab_token ''/r''
     [example_long_repo (CHR ''a''), example_long_repo (CHR ''b'')]
     (example_long_repo (CHR ''a'')) = Inr ''/r/app_g'' \<and>
   hostPath_of example_env_gitlab_token ''/r''
     [example_long_repo (CHR ''a''), example_long_repo (CHR ''b'')]
     (example_long_repo (CHR ''b'')) = Inr ''/r/app_g''"
  by code_simp

end
